theory Spec2Isabelle
  imports Complex_Main "HOL-Library.AList" "HOL-Library.Char_ord" "HOL-Library.List_Lexorder"
begin

section \<open>Data model (types of the download and storage services)\<close>

text \<open>
  A \<open>Blob\<close> is the byte sequence it holds; \<open>blob.size\<close> is its length.
  Timestamps (\<open>Date.now()\<close>) and byte counts are integers; \<open>progress\<close> is a
  percentage computed by a division and is kept as a real number.
\<close>

type_synonym Blob = "nat list"

datatype Status = Pending | Downloading | Completed | Failed | Paused

record DownloadTask =
  lectureId :: string
  status :: Status
  progress :: real
  bytesDownloaded :: int
  totalBytes :: int
  startedAt :: "int option"
  completedAt :: "int option"
  error :: "string option"

text \<open>
  Of a \<open>Lecture\<close> the download code reads \<open>id\<close>, \<open>fileUrl\<close> and \<open>fileSize\<close> and
  writes \<open>isDownloaded\<close> and \<open>downloadedAt\<close>; the descriptive fields (title, creator,
  ...) are carried along untouched in the extension slot of the record.
\<close>

record Lecture =
  lecture_id :: string
  fileUrl :: string
  fileSize :: int
  downloadedAt :: "int option"
  isDownloaded :: "bool option"

text \<open>The value type of the \<open>audioCache\<close> object store.\<close>

record CachedAudio =
  ca_lectureId :: string
  blob :: Blob
  ca_size :: nat
  cachedAt :: int
  lastAccessed :: int

record StorageStats =
  used :: int
  available :: int
  quota :: int
  usedPercentage :: real
  audioSize :: int
  cacheSize :: int

text \<open>
  What \<open>navigator.storage.estimate()\<close> answers; both fields may be missing, and the
  whole API may be missing (\<open>None\<close> where an estimate is expected).
\<close>

record StorageEstimate =
  est_quota :: "int option"
  est_usage :: "int option"

section \<open>The persistent store (IndexedDB object stores with in-line keys)\<close>

text \<open>
  An object store with a key path holds at most one record per key and lists its
  records in key order. It is a list of records together with the key path:
  \<open>put\<close> replaces the record that has the key, or adds the new record at its place in
  key order; \<open>get\<close> finds the record with the key; \<open>delete\<close> removes it.
\<close>

definition idb_get :: "('v \<Rightarrow> string) \<Rightarrow> string \<Rightarrow> 'v list \<Rightarrow> 'v option" where
  "idb_get key k st = find (\<lambda>x. key x = k) st"

definition idb_put :: "('v \<Rightarrow> string) \<Rightarrow> 'v \<Rightarrow> 'v list \<Rightarrow> 'v list" where
  "idb_put key v st =
     (if list_ex (\<lambda>x. key x = key v) st
      then map (\<lambda>x. if key x = key v then v else x) st
      else insort_key key v st)"

definition idb_delete :: "('v \<Rightarrow> string) \<Rightarrow> string \<Rightarrow> 'v list \<Rightarrow> 'v list" where
  "idb_delete key k st = filter (\<lambda>x. key x \<noteq> k) st"

record DB =
  lectures :: "Lecture list"
  audioCache :: "CachedAudio list"
  downloads :: "DownloadTask list"

section \<open>StorageManager (storage-manager.ts)\<close>

definition getLecture :: "string \<Rightarrow> DB \<Rightarrow> Lecture option" where
  "getLecture i db = idb_get lecture_id i (lectures db)"

definition saveLecture :: "Lecture \<Rightarrow> DB \<Rightarrow> DB" where
  "saveLecture lecture db = db\<lparr>lectures := idb_put lecture_id lecture (lectures db)\<rparr>"

text \<open>
  The two clock readings of \<open>cacheAudio\<close>, for \<open>cachedAt\<close> and \<open>lastAccessed\<close>, are
  taken as one reading \<open>now\<close>.
\<close>

definition cacheAudio :: "int \<Rightarrow> string \<Rightarrow> Blob \<Rightarrow> DB \<Rightarrow> DB" where
  "cacheAudio now lid b db =
     db\<lparr>audioCache := idb_put ca_lectureId
        \<lparr>ca_lectureId = lid, blob = b, ca_size = length b, cachedAt = now, lastAccessed = now\<rparr>
        (audioCache db)\<rparr>"

definition getCachedAudio :: "int \<Rightarrow> string \<Rightarrow> DB \<Rightarrow> Blob option \<times> DB" where
  "getCachedAudio now lid db =
     (case idb_get ca_lectureId lid (audioCache db) of
        Some cached \<Rightarrow>
          (Some (blob cached),
           db\<lparr>audioCache := idb_put ca_lectureId (cached\<lparr>lastAccessed := now\<rparr>) (audioCache db)\<rparr>)
      | None \<Rightarrow> (None, db))"

definition isAudioCached :: "string \<Rightarrow> DB \<Rightarrow> bool" where
  "isAudioCached lid db = (idb_get ca_lectureId lid (audioCache db) \<noteq> None)"

definition deleteCachedAudio :: "string \<Rightarrow> DB \<Rightarrow> DB" where
  "deleteCachedAudio lid db = db\<lparr>audioCache := idb_delete ca_lectureId lid (audioCache db)\<rparr>"

definition getAllCachedAudioIds :: "DB \<Rightarrow> string list" where
  "getAllCachedAudioIds db = map ca_lectureId (audioCache db)"

definition saveDownloadTask :: "DownloadTask \<Rightarrow> DB \<Rightarrow> DB" where
  "saveDownloadTask task db = db\<lparr>downloads := idb_put lectureId task (downloads db)\<rparr>"

definition getAllDownloads :: "DB \<Rightarrow> DownloadTask list" where
  "getAllDownloads db = downloads db"

definition deleteDownloadTask :: "string \<Rightarrow> DB \<Rightarrow> DB" where
  "deleteDownloadTask lid db = db\<lparr>downloads := idb_delete lectureId lid (downloads db)\<rparr>"

text \<open>\<open>x || 0\<close> on a number that may be undefined.\<close>

definition or_zero :: "int option \<Rightarrow> int" where
  "or_zero x = (case x of None \<Rightarrow> 0 | Some v \<Rightarrow> v)"

definition getStorageStats :: "StorageEstimate option \<Rightarrow> DB \<Rightarrow> StorageStats" where
  "getStorageStats est db =
     (let audio = sum_list (map (\<lambda>item. int (ca_size item)) (audioCache db));
          q = (case est of None \<Rightarrow> 0 | Some e \<Rightarrow> or_zero (est_quota e));
          u = (case est of None \<Rightarrow> 0 | Some e \<Rightarrow> or_zero (est_usage e))
      in \<lparr>used = u, available = q - u, quota = q,
          usedPercentage = (if q > 0 then (real_of_int u / real_of_int q) * 100 else 0),
          audioSize = audio, cacheSize = u - audio\<rparr>)"

text \<open>
  The loop of \<open>evictToFreeSpace\<close> over the sorted inventory, with its two
  accumulators \<open>freedBytes\<close> and \<open>toDelete\<close>; the \<open>break\<close> is the first branch.
\<close>

fun evict_loop :: "int \<Rightarrow> CachedAudio list \<Rightarrow> int \<Rightarrow> string list \<Rightarrow> int \<times> string list" where
  "evict_loop targetBytes [] freedBytes toDelete = (freedBytes, toDelete)"
| "evict_loop targetBytes (item # rest) freedBytes toDelete =
     (if freedBytes \<ge> targetBytes then (freedBytes, toDelete)
      else evict_loop targetBytes rest (freedBytes + int (ca_size item))
             (toDelete @ [ca_lectureId item]))"

text \<open>
  \<open>Array.prototype.sort\<close> is stable, and the comparator orders by \<open>lastAccessed\<close>
  ascending: that is \<open>sort_key lastAccessed\<close>.
\<close>

definition evictToFreeSpace :: "int \<Rightarrow> DB \<Rightarrow> int \<times> DB" where
  "evictToFreeSpace targetBytes db =
     (let allCached = sort_key lastAccessed (audioCache db);
          (freedBytes, toDelete) = evict_loop targetBytes allCached 0 []
      in (freedBytes,
          db\<lparr>audioCache := foldl (\<lambda>st i. idb_delete ca_lectureId i st) (audioCache db) toDelete\<rparr>))"

section \<open>DownloadManager (download-manager.ts)\<close>

definition MAX_CONCURRENT_DOWNLOADS :: int where
  "MAX_CONCURRENT_DOWNLOADS = 2"

definition STORAGE_BUFFER_MB :: int where
  "STORAGE_BUFFER_MB = 50"

text \<open>
  \<open>tasks\<close> is a JavaScript \<open>Map\<close>: an association list in insertion order, where
  \<open>set\<close> on a present key replaces the value in place (\<open>AList.update\<close>) and \<open>delete\<close>
  removes the entry (\<open>AList.delete\<close>). \<open>activeDownloads\<close> is a \<open>Set\<close>: a list without
  repetition.
\<close>

record DownloadManagerState =
  tasks :: "(string \<times> DownloadTask) list"
  activeDownloads :: "string list"
  isPaused :: bool
  totalProgress :: real
  stateError :: "string option"

definition initialState :: DownloadManagerState where
  "initialState = \<lparr>tasks = [], activeDownloads = [], isPaused = False, totalProgress = 0,
     stateError = None\<rparr>"

definition set_add :: "string \<Rightarrow> string list \<Rightarrow> string list" where
  "set_add x xs = (if x \<in> set xs then xs else xs @ [x])"

definition set_delete :: "string \<Rightarrow> string list \<Rightarrow> string list" where
  "set_delete x xs = removeAll x xs"

text \<open>
  \<open>startDownload\<close> is an \<open>async\<close> function: a call runs up to its first \<open>await\<close> and
  is then suspended until the awaited operation answers. A suspended call is a value of
  \<open>Coroutine\<close>, one constructor per suspension point:
  \<^item> \<open>AwaitLecture\<close>: at \<open>await storageManager.getLecture(lectureId)\<close>;
  \<^item> \<open>AwaitResponse\<close>: inside \<open>fetchAudioWithProgress\<close>, at \<open>await fetch(url, {signal})\<close>;
  \<^item> \<open>Reading\<close>: inside \<open>fetchAudioWithProgress\<close>, at \<open>await reader.read()\<close>, with the
    local variables \<open>total\<close>, \<open>chunks\<close> and \<open>loaded\<close>;
  \<^item> \<open>AwaitCacheAudio\<close>: at \<open>await storageManager.cacheAudio(lectureId, blob)\<close>, with the
    blob and the clock reading that \<open>cacheAudio\<close> took;
  \<^item> \<open>AwaitSaveLecture\<close>: at \<open>await storageManager.saveLecture(updatedLecture)\<close>.
  Every call of \<open>startDownload\<close> gets a number; the \<open>AbortController\<close> it creates is
  identified by that number.
\<close>

datatype Coroutine =
    AwaitLecture string
  | AwaitResponse string Lecture
  | Reading string Lecture int "Blob list" int
  | AwaitCacheAudio string Lecture Blob int
  | AwaitSaveLecture string Lecture Blob

record World =
  store :: DownloadManagerState
  abortControllers :: "(string \<times> nat) list"
  aborted :: "nat list"
  db :: DB
  running :: "(nat \<times> Coroutine) list"
  calls :: nat

definition init_world :: "DB \<Rightarrow> World" where
  "init_world d = \<lparr>store = initialState, abortControllers = [], aborted = [], db = d,
     running = [], calls = 0\<rparr>"

datatype error = Error string

definition resetInterrupted :: "DownloadTask \<Rightarrow> DownloadTask" where
  "resetInterrupted task =
     (if status task = Downloading then task\<lparr>status := Pending, progress := 0\<rparr> else task)"

definition loadExistingTasks :: "World \<Rightarrow> World" where
  "loadExistingTasks w =
     (let tasksMap = foldl (\<lambda>m task. AList.update (lectureId (resetInterrupted task))
                                   (resetInterrupted task) m) [] (getAllDownloads (db w))
      in w\<lparr>store := (store w)\<lparr>tasks := tasksMap\<rparr>\<rparr>)"

text \<open>
  \<open>updateTask\<close>: the \<open>Partial<DownloadTask>\<close> spread over the task is a function on
  tasks. A missing task leaves everything as it is.
\<close>

definition updateTask :: "string \<Rightarrow> (DownloadTask \<Rightarrow> DownloadTask) \<Rightarrow> World \<Rightarrow> World" where
  "updateTask lid updates w =
     (case map_of (tasks (store w)) lid of
        Some task \<Rightarrow>
          (let updatedTask = updates task
           in w\<lparr>store := (store w)\<lparr>tasks := AList.update lid updatedTask (tasks (store w))\<rparr>,
                db := saveDownloadTask updatedTask (db w)\<rparr>)
      | None \<Rightarrow> w)"

text \<open>The part of \<open>startDownload\<close> before its first \<open>await\<close>: the call is suspended.\<close>

definition startDownload :: "string \<Rightarrow> World \<Rightarrow> World" where
  "startDownload lid w = w\<lparr>running := running w @ [(calls w, AwaitLecture lid)], calls := calls w + 1\<rparr>"

definition processQueue :: "World \<Rightarrow> World" where
  "processQueue w =
     (let state = store w in
      if isPaused state then w
      else
        let pendingTasks = filter (\<lambda>t. status t = Pending) (map snd (tasks state));
            slotsAvailable = MAX_CONCURRENT_DOWNLOADS - int (length (activeDownloads state))
        in if slotsAvailable \<le> 0 \<or> pendingTasks = [] then w
           else foldl (\<lambda>w' task. startDownload (lectureId task) w') w
                  (take (nat slotsAvailable) pendingTasks))"

definition checkStorageAvailability :: "StorageEstimate option \<Rightarrow> int \<Rightarrow> DB \<Rightarrow> bool" where
  "checkStorageAvailability est requiredBytes d =
     (let stats = getStorageStats est d;
          bufferBytes = STORAGE_BUFFER_MB * 1024 * 1024
      in available stats > requiredBytes + bufferBytes)"

definition queueDownload :: "StorageEstimate option \<Rightarrow> Lecture \<Rightarrow> World \<Rightarrow> error + World" where
  "queueDownload est lecture w =
     (let state = store w in
      if (case map_of (tasks state) (lecture_id lecture) of
            Some task \<Rightarrow> status task = Completed \<or> status task = Downloading
          | None \<Rightarrow> False)
      then Inr w
      else if \<not> checkStorageAvailability est (fileSize lecture) (db w)
      then Inl (Error ''Insufficient storage space. Please free up some space.'')
      else
        let task = \<lparr>lectureId = lecture_id lecture, status = Pending, progress = 0,
                     bytesDownloaded = 0, totalBytes = fileSize lecture,
                     startedAt = None, completedAt = None, error = None\<rparr>
        in Inr (processQueue
                 (w\<lparr>store := state\<lparr>tasks := AList.update (lecture_id lecture) task (tasks state)\<rparr>,
                     db := saveDownloadTask task (db w)\<rparr>)))"

definition pauseDownload :: "string \<Rightarrow> World \<Rightarrow> World" where
  "pauseDownload lid w =
     (let w1 = (case map_of (abortControllers w) lid of
                  Some controller \<Rightarrow> w\<lparr>aborted := controller # aborted w\<rparr>
                | None \<Rightarrow> w)
      in updateTask lid (\<lambda>t. t\<lparr>status := Paused\<rparr>) w1)"

definition resumeDownload :: "string \<Rightarrow> World \<Rightarrow> World" where
  "resumeDownload lid w = processQueue (updateTask lid (\<lambda>t. t\<lparr>status := Pending\<rparr>) w)"

definition retryDownload :: "string \<Rightarrow> World \<Rightarrow> World" where
  "retryDownload lid w =
     processQueue (updateTask lid
       (\<lambda>t. t\<lparr>status := Pending, progress := 0, bytesDownloaded := 0, error := None\<rparr>) w)"

definition cancelDownload :: "string \<Rightarrow> World \<Rightarrow> World" where
  "cancelDownload lid w =
     (let w1 = (case map_of (abortControllers w) lid of
                  Some controller \<Rightarrow> w\<lparr>aborted := controller # aborted w\<rparr>
                | None \<Rightarrow> w);
          w2 = w1\<lparr>store := (store w1)\<lparr>tasks := AList.delete lid (tasks (store w1)),
                     activeDownloads := set_delete lid (activeDownloads (store w1))\<rparr>\<rparr>;
          d1 = deleteCachedAudio lid (deleteDownloadTask lid (db w2));
          d2 = (case getLecture lid d1 of
                  Some lecture \<Rightarrow> saveLecture (lecture\<lparr>isDownloaded := Some False, downloadedAt := None\<rparr>) d1
                | None \<Rightarrow> d1)
      in w2\<lparr>db := d2\<rparr>)"

definition pauseAll :: "World \<Rightarrow> World" where
  "pauseAll w =
     foldl (\<lambda>w' (lid, controller).
              updateTask lid (\<lambda>t. t\<lparr>status := Paused\<rparr>) (w'\<lparr>aborted := controller # aborted w'\<rparr>))
       (w\<lparr>store := (store w)\<lparr>isPaused := True\<rparr>\<rparr>) (abortControllers w)"

definition resumeAll :: "World \<Rightarrow> World" where
  "resumeAll w =
     (let w1 = w\<lparr>store := (store w)\<lparr>isPaused := False\<rparr>\<rparr>;
          state = store w1
      in processQueue
           (foldl (\<lambda>w' (lid, task).
                     if status task = Paused then updateTask lid (\<lambda>t. t\<lparr>status := Pending\<rparr>) w' else w')
              w1 (tasks state)))"

definition freeUpSpace :: "StorageEstimate option \<Rightarrow> int \<Rightarrow> World \<Rightarrow> bool \<times> World" where
  "freeUpSpace est requiredBytes w =
     (let stats = getStorageStats est (db w) in
      if available stats \<ge> requiredBytes then (True, w)
      else
        let bytesToFree = requiredBytes - available stats + STORAGE_BUFFER_MB * 1024 * 1024;
            (freedBytes, d1) = evictToFreeSpace bytesToFree (db w);
            cachedIds = getAllCachedAudioIds d1;
            state = store w;
            w1 = foldl (\<lambda>w' (lid, task).
                          if status task = Completed \<and> lid \<notin> set cachedIds
                          then w'\<lparr>store := (store w')\<lparr>tasks := AList.delete lid (tasks (store w'))\<rparr>,
                                   db := deleteDownloadTask lid (db w')\<rparr>
                          else w')
                   (w\<lparr>db := d1\<rparr>) (tasks state)
        in (freedBytes \<ge> bytesToFree, w1))"

subsection \<open>The body of \<open>startDownload\<close> after its suspension points\<close>

text \<open>
  \<open>lecture.fileUrl.match(/\/download\/([^/]+)\/(.+)$/)\<close>: the leftmost place where
  \<open>/download/\<close> is followed by a non-empty run without a slash, a slash, and a non-empty
  rest up to the end of the string that holds no line terminator.
\<close>

definition urlParts_at :: "string \<Rightarrow> (string \<times> string) option" where
  "urlParts_at s =
     (if take 10 s = ''/download/'' then
        (let rest = drop 10 s;
             identifier = takeWhile (\<lambda>c. c \<noteq> CHR ''/'') rest;
             after = dropWhile (\<lambda>c. c \<noteq> CHR ''/'') rest
         in if identifier \<noteq> [] \<and> after \<noteq> [] \<and> tl after \<noteq> []
               \<and> list_all (\<lambda>c. c \<noteq> CHR 0x0A \<and> c \<noteq> CHR 0x0D) (tl after)
            then Some (identifier, tl after) else None)
      else None)"

fun urlParts :: "string \<Rightarrow> (string \<times> string) option" where
  "urlParts [] = None"
| "urlParts (c # cs) =
     (case urlParts_at (c # cs) of Some r \<Rightarrow> Some r | None \<Rightarrow> urlParts cs)"

text \<open>What the \<open>try\<close> block can throw: an \<open>AbortError\<close>, or anything else with its message.\<close>

datatype Thrown = AbortError | OtherError string

definition catchBlock :: "string \<Rightarrow> Thrown \<Rightarrow> World \<Rightarrow> World" where
  "catchBlock lid e w =
     (case e of
        AbortError \<Rightarrow> updateTask lid (\<lambda>t. t\<lparr>status := Paused, error := Some ''Download cancelled''\<rparr>) w
      | OtherError msg \<Rightarrow> updateTask lid (\<lambda>t. t\<lparr>status := Failed, error := Some msg\<rparr>) w)"

definition finallyBlock :: "string \<Rightarrow> World \<Rightarrow> World" where
  "finallyBlock lid w =
     processQueue
       (w\<lparr>abortControllers := AList.delete lid (abortControllers w),
          store := (store w)\<lparr>activeDownloads := set_delete lid (activeDownloads (store w))\<rparr>\<rparr>)"

definition co_set :: "nat \<Rightarrow> Coroutine \<Rightarrow> World \<Rightarrow> World" where
  "co_set c k w = w\<lparr>running := AList.update c k (running w)\<rparr>"

definition co_end :: "nat \<Rightarrow> World \<Rightarrow> World" where
  "co_end c w = w\<lparr>running := AList.delete c (running w)\<rparr>"

text \<open>
  From the answer of \<open>getLecture\<close> to the call of \<open>fetchAudioWithProgress\<close>; call \<open>c\<close>
  either returns (lecture missing), fails on the URL and runs \<open>catch\<close> and \<open>finally\<close>,
  or is suspended again inside the fetcher.
\<close>

definition afterGetLecture :: "nat \<Rightarrow> int \<Rightarrow> string \<Rightarrow> World \<Rightarrow> World" where
  "afterGetLecture c now lid w =
     (case getLecture lid (db w) of
        None \<Rightarrow>
          co_end c (updateTask lid (\<lambda>t. t\<lparr>status := Failed, error := Some ''Lecture not found''\<rparr>) w)
      | Some lecture \<Rightarrow>
          (let w1 = w\<lparr>abortControllers := AList.update lid c (abortControllers w)\<rparr>;
               w2 = updateTask lid (\<lambda>t. t\<lparr>status := Downloading, startedAt := Some now\<rparr>) w1;
               w3 = w2\<lparr>store := (store w2)\<lparr>activeDownloads := set_add lid (activeDownloads (store w2))\<rparr>\<rparr>
           in case urlParts (fileUrl lecture) of
                None \<Rightarrow> finallyBlock lid (catchBlock lid (OtherError ''Invalid file URL'') (co_end c w3))
              | Some (identifier, fileName) \<Rightarrow> co_set c (AwaitResponse lid lecture) w3))"

text \<open>The progress callback that \<open>startDownload\<close> hands to the fetcher.\<close>

definition onProgress :: "string \<Rightarrow> int \<Rightarrow> int \<Rightarrow> World \<Rightarrow> World" where
  "onProgress lid loaded tot w =
     updateTask lid
       (\<lambda>t. t\<lparr>progress := (if tot > 0 then (real_of_int loaded / real_of_int tot) * 100 else 0),
              bytesDownloaded := loaded, totalBytes := tot\<rparr>) w"

text \<open>
  After the fetcher has returned the blob: the write of \<open>cacheAudio\<close> takes effect when
  it completes, and the call goes on to \<open>saveLecture\<close>; when that write completes the
  task is marked and \<open>finally\<close> runs.
\<close>

definition afterCacheAudio :: "nat \<Rightarrow> int \<Rightarrow> string \<Rightarrow> Lecture \<Rightarrow> Blob \<Rightarrow> int \<Rightarrow> World \<Rightarrow> World" where
  "afterCacheAudio c now lid lecture b cachedNow w =
     (let updatedLecture = lecture\<lparr>isDownloaded := Some True, downloadedAt := Some now\<rparr>
      in co_set c (AwaitSaveLecture lid updatedLecture b)
           (w\<lparr>db := cacheAudio cachedNow lid b (db w)\<rparr>))"

definition afterSaveLecture :: "nat \<Rightarrow> int \<Rightarrow> string \<Rightarrow> Lecture \<Rightarrow> Blob \<Rightarrow> World \<Rightarrow> World" where
  "afterSaveLecture c now lid updatedLecture b w =
     (let w1 = updateTask lid
                 (\<lambda>t. t\<lparr>status := Completed, progress := 100,
                        bytesDownloaded := int (length b), completedAt := Some now\<rparr>)
                 (w\<lparr>db := saveLecture updatedLecture (db w)\<rparr>)
      in finallyBlock lid (co_end c w1))"

subsection \<open>Events and runs\<close>

text \<open>
  An event is a call of the public interface or the answer to an awaited operation of one
  suspended \<open>startDownload\<close> call \<open>c\<close>:
  \<^item> \<open>LectureLoaded c now\<close>: \<open>getLecture\<close> answers;
  \<^item> \<open>Response c total\<close>: \<open>fetch\<close> answers with an ok response that has a body; \<open>total\<close> is
    the parsed \<open>content-length\<close>, or 0 without the header;
  \<^item> \<open>Chunk c value\<close>: \<open>reader.read()\<close> answers with a chunk;
  \<^item> \<open>EndOfStream c now\<close>: \<open>reader.read()\<close> answers \<open>done\<close>, the blob is built and
    \<open>cacheAudio\<close> is called at time \<open>now\<close>;
  \<^item> \<open>CacheAudioDone c now\<close>, \<open>SaveLectureDone c now\<close>: the store write completes;
  \<^item> \<open>TransferError c msg\<close>: anything inside the \<open>try\<close> block throws an error that is not
    an \<open>AbortError\<close> (network failure, bad status, missing body, a file name that
    \<open>decodeURIComponent\<close> rejects, a store write that fails and so has no effect);
  \<^item> \<open>AbortObserved c\<close>: the fetch rejects with \<open>AbortError\<close>, which needs the
    controller of call \<open>c\<close> to be aborted.
  Once its controller is aborted a call receives no further response, chunk or end of
  stream. An event that is not enabled leaves the world as it is. The interface calls
  run without interleaving; the suspension points of \<open>startDownload\<close> and of the fetcher
  are where runs interleave.
\<close>

datatype Event =
    LoadExistingTasks
  | QueueDownload "StorageEstimate option" Lecture
  | PauseDownload string
  | ResumeDownload string
  | CancelDownload string
  | RetryDownload string
  | PauseAll
  | ResumeAll
  | FreeUpSpace "StorageEstimate option" int
  | LectureLoaded nat int
  | Response nat int
  | Chunk nat Blob
  | EndOfStream nat int
  | CacheAudioDone nat int
  | SaveLectureDone nat int
  | TransferError nat string
  | AbortObserved nat

fun step :: "Event \<Rightarrow> World \<Rightarrow> World" where
  "step LoadExistingTasks w = loadExistingTasks w"
| "step (QueueDownload est lecture) w =
     (case queueDownload est lecture w of Inl e \<Rightarrow> w | Inr w' \<Rightarrow> w')"
| "step (PauseDownload lid) w = pauseDownload lid w"
| "step (ResumeDownload lid) w = resumeDownload lid w"
| "step (CancelDownload lid) w = cancelDownload lid w"
| "step (RetryDownload lid) w = retryDownload lid w"
| "step PauseAll w = pauseAll w"
| "step ResumeAll w = resumeAll w"
| "step (FreeUpSpace est requiredBytes) w = snd (freeUpSpace est requiredBytes w)"
| "step (LectureLoaded c now) w =
     (case map_of (running w) c of
        Some (AwaitLecture lid) \<Rightarrow> afterGetLecture c now lid w
      | _ \<Rightarrow> w)"
| "step (Response c tot) w =
     (case map_of (running w) c of
        Some (AwaitResponse lid lecture) \<Rightarrow>
          if c \<in> set (aborted w) then w else co_set c (Reading lid lecture tot [] 0) w
      | _ \<Rightarrow> w)"
| "step (Chunk c val) w =
     (case map_of (running w) c of
        Some (Reading lid lecture tot chunks loaded) \<Rightarrow>
          if c \<in> set (aborted w) then w
          else
            (let loaded' = loaded + int (length val);
                 w1 = co_set c (Reading lid lecture tot (chunks @ [val]) loaded') w
             in if tot > 0 then onProgress lid loaded' tot w1 else w1)
      | _ \<Rightarrow> w)"
| "step (EndOfStream c now) w =
     (case map_of (running w) c of
        Some (Reading lid lecture tot chunks loaded) \<Rightarrow>
          if c \<in> set (aborted w) then w
          else co_set c (AwaitCacheAudio lid lecture (concat chunks) now) w
      | _ \<Rightarrow> w)"
| "step (CacheAudioDone c now) w =
     (case map_of (running w) c of
        Some (AwaitCacheAudio lid lecture b cachedNow) \<Rightarrow> afterCacheAudio c now lid lecture b cachedNow w
      | _ \<Rightarrow> w)"
| "step (SaveLectureDone c now) w =
     (case map_of (running w) c of
        Some (AwaitSaveLecture lid updatedLecture b) \<Rightarrow> afterSaveLecture c now lid updatedLecture b w
      | _ \<Rightarrow> w)"
| "step (TransferError c msg) w =
     (case map_of (running w) c of
        Some (AwaitResponse lid lecture) \<Rightarrow>
          finallyBlock lid (catchBlock lid (OtherError msg) (co_end c w))
      | Some (Reading lid lecture tot chunks loaded) \<Rightarrow>
          finallyBlock lid (catchBlock lid (OtherError msg) (co_end c w))
      | Some (AwaitCacheAudio lid lecture b cachedNow) \<Rightarrow>
          finallyBlock lid (catchBlock lid (OtherError msg) (co_end c w))
      | Some (AwaitSaveLecture lid updatedLecture b) \<Rightarrow>
          finallyBlock lid (catchBlock lid (OtherError msg) (co_end c w))
      | _ \<Rightarrow> w)"
| "step (AbortObserved c) w =
     (case map_of (running w) c of
        Some (AwaitResponse lid lecture) \<Rightarrow>
          if c \<in> set (aborted w) then finallyBlock lid (catchBlock lid AbortError (co_end c w)) else w
      | Some (Reading lid lecture tot chunks loaded) \<Rightarrow>
          if c \<in> set (aborted w) then finallyBlock lid (catchBlock lid AbortError (co_end c w)) else w
      | _ \<Rightarrow> w)"

definition run :: "Event list \<Rightarrow> World \<Rightarrow> World" where
  "run evs w = foldl (\<lambda>w' e. step e w') w evs"

inductive reachable :: "World \<Rightarrow> bool" where
  reachable_init: "reachable (init_world d)"
| reachable_step: "reachable w \<Longrightarrow> reachable (step e w)"

definition downloadingCount :: "World \<Rightarrow> nat" where
  "downloadingCount w = length (filter (\<lambda>t. status t = Downloading) (map snd (tasks (store w))))"

section \<open>Derived notions used in the statements\<close>

text \<open>
  The bytes a list of cache entries accounts for, the order in which
  \<open>evictToFreeSpace\<close> walks the inventory, and the identifiers it collects in
  \<open>toDelete\<close>.
\<close>

definition freedBy :: "CachedAudio list \<Rightarrow> int" where
  "freedBy xs = sum_list (map (\<lambda>item. int (ca_size item)) xs)"

definition evictionOrder :: "DB \<Rightarrow> CachedAudio list" where
  "evictionOrder d = sort_key lastAccessed (audioCache d)"

definition evictionSet :: "int \<Rightarrow> DB \<Rightarrow> string list" where
  "evictionSet targetBytes d = snd (evict_loop targetBytes (evictionOrder d) 0 [])"

text \<open>The task that \<open>queueDownload\<close> creates for a lecture.\<close>

definition freshTask :: "Lecture \<Rightarrow> DownloadTask" where
  "freshTask lecture =
     \<lparr>lectureId = lecture_id lecture, status = Pending, progress = 0, bytesDownloaded = 0,
      totalBytes = fileSize lecture, startedAt = None, completedAt = None, error = None\<rparr>"

text \<open>
  The task map is well-formed when no lecture id occurs twice and every task is stored
  under its own lecture id.
\<close>

definition tasksOk :: "(string \<times> DownloadTask) list \<Rightarrow> bool" where
  "tasksOk ts = (distinct (map fst ts) \<and> list_all (\<lambda>(k, t). lectureId t = k) ts)"

definition tasksInv :: "World \<Rightarrow> bool" where
  "tasksInv w = (distinct (map fst (tasks (store w)))
      \<and> list_all (\<lambda>(k, t). lectureId t = k) (tasks (store w)))"

section \<open>Sample data\<close>

definition sampleLecture :: "string \<Rightarrow> int \<Rightarrow> Lecture" where
  "sampleLecture i n =
     \<lparr>lecture_id = i, fileUrl = ''https://archive.org/download/talks/'' @ i @ ''.mp3'',
      fileSize = n, downloadedAt = None, isDownloaded = None\<rparr>"

definition sampleTask :: "string \<Rightarrow> Status \<Rightarrow> DownloadTask" where
  "sampleTask i s =
     \<lparr>lectureId = i, status = s, progress = 40, bytesDownloaded = 40, totalBytes = 100,
      startedAt = None, completedAt = None, error = None\<rparr>"

definition sampleEntry :: "string \<Rightarrow> nat \<Rightarrow> int \<Rightarrow> CachedAudio" where
  "sampleEntry i n t =
     \<lparr>ca_lectureId = i, blob = replicate n 0, ca_size = n, cachedAt = t, lastAccessed = t\<rparr>"

text \<open>Three cached blobs of 10, 20 and 30 MB; A was used longest ago, C last.\<close>

definition sampleCache :: DB where
  "sampleCache =
     \<lparr>lectures = [],
      audioCache = [sampleEntry ''A'' (10 * 1024 * 1024) 100,
                    sampleEntry ''B'' (20 * 1024 * 1024) 200,
                    sampleEntry ''C'' (30 * 1024 * 1024) 300],
      downloads = []\<rparr>"

text \<open>
  Three lectures with their persisted tasks, as a session leaves them that ended while
  A was being transferred and B and C were waiting.
\<close>

definition sampleDB :: DB where
  "sampleDB =
     \<lparr>lectures = [sampleLecture ''A'' 100, sampleLecture ''B'' 100, sampleLecture ''C'' 100],
      audioCache = [],
      downloads = [sampleTask ''A'' Downloading, sampleTask ''B'' Pending, sampleTask ''C'' Pending]\<rparr>"

text \<open>A storage estimate of \<open>q\<close> MB quota and \<open>u\<close> MB usage.\<close>

definition sampleEstimate :: "int \<Rightarrow> int \<Rightarrow> StorageEstimate option" where
  "sampleEstimate q u = Some \<lparr>est_quota = Some (q * 1024 * 1024), est_usage = Some (u * 1024 * 1024)\<rparr>"

text \<open>The manager right after startup on \<open>sampleDB\<close>.\<close>

definition sampleWorld :: World where
  "sampleWorld = loadExistingTasks (init_world sampleDB)"

text \<open>
  After startup: resume A (two calls of \<open>startDownload\<close> are made, for A and B), pause A
  and B before either call has got its lecture, resume C (a third call), then the three
  calls get their lectures.
\<close>

definition overCapTrace :: "Event list" where
  "overCapTrace = [LoadExistingTasks, ResumeDownload ''A'', PauseDownload ''A'', PauseDownload ''B'',
     ResumeDownload ''C'', LectureLoaded 0 5, LectureLoaded 1 5, LectureLoaded 2 5]"

text \<open>
  After startup: resume A, the calls for A and B get their lectures and wait for the
  server, then A is paused.
\<close>

definition pauseTrace :: "Event list" where
  "pauseTrace = [LoadExistingTasks, ResumeDownload ''A'', LectureLoaded 0 5, LectureLoaded 1 5,
     PauseDownload ''A'']"

definition pausedWorld :: World where
  "pausedWorld = run pauseTrace (init_world sampleDB)"

text \<open>
  After startup: resume A; the call for A gets its lecture, the server answers without a
  \<open>content-length\<close> and sends 120 bytes, although the lecture declares 100; then the two
  store writes complete.
\<close>

definition fetchedTrace :: "Event list" where
  "fetchedTrace = [LoadExistingTasks, ResumeDownload ''A'', LectureLoaded 0 5, Response 0 0,
     Chunk 0 (replicate 120 0), EndOfStream 0 6]"

definition sizeTrace :: "Event list" where
  "sizeTrace = fetchedTrace @ [CacheAudioDone 0 7, SaveLectureDone 0 8]"

text \<open>
  The same with a body of the declared 100 bytes, and with \<open>freeUpSpace\<close> called for
  20 MB while only 10 MB are available, between the two store writes.
\<close>

definition evictedTrace :: "Event list" where
  "evictedTrace = [LoadExistingTasks, ResumeDownload ''A'', LectureLoaded 0 5, Response 0 100,
     Chunk 0 (replicate 100 0), EndOfStream 0 6, CacheAudioDone 0 7,
     FreeUpSpace (sampleEstimate 100 90) (20 * 1024 * 1024), SaveLectureDone 0 8]"

section \<open>Lemmas on the store and the queue\<close>

lemma store_startDownload: "store (startDownload lid w) = store w"
  by (simp add: startDownload_def)

lemma store_foldl_startDownload:
  "store (foldl (\<lambda>w' task. startDownload (lectureId task) w') w ts) = store w"
  by (induction ts arbitrary: w) (simp_all add: store_startDownload)

lemma store_processQueue: "store (processQueue w) = store w"
  by (simp add: processQueue_def Let_def store_foldl_startDownload)

lemma find_insort_key_other:
  "\<not> P v \<Longrightarrow> find P (insort_key key v xs) = find P xs"
  by (induction xs) auto

lemma find_insort_key_new:
  "P v \<Longrightarrow> \<forall>x\<in>set xs. \<not> P x \<Longrightarrow> find P (insort_key key v xs) = Some v"
  by (induction xs) auto

lemma find_map_replace_same:
  "key v = k \<Longrightarrow> \<exists>x\<in>set xs. key x = k \<Longrightarrow>
     find (\<lambda>x. key x = k) (map (\<lambda>x. if key x = k then v else x) xs) = Some v"
  by (induction xs) auto

lemma find_map_replace_other:
  "key v \<noteq> k \<Longrightarrow>
     find (\<lambda>x. key x = k) (map (\<lambda>x. if key x = key v then v else x) xs) = find (\<lambda>x. key x = k) xs"
  by (induction xs) auto

lemma idb_get_put:
  "idb_get key k (idb_put key v st) = (if k = key v then Some v else idb_get key k st)"
proof (cases "k = key v")
  case True
  show ?thesis
  proof (cases "list_ex (\<lambda>x. key x = key v) st")
    case True
    with \<open>k = key v\<close> show ?thesis
      by (simp add: idb_get_def idb_put_def list_ex_iff find_map_replace_same)
  next
    case False
    with \<open>k = key v\<close> show ?thesis
      by (simp add: idb_get_def idb_put_def list_ex_iff find_insort_key_new)
  qed
next
  case False
  then show ?thesis
    by (simp add: idb_get_def idb_put_def find_map_replace_other find_insort_key_other)
qed

lemma idb_get_key: "idb_get key k st = Some e \<Longrightarrow> key e = k \<and> e \<in> set st"
  by (auto simp: idb_get_def find_Some_iff)

lemma idb_put_present:
  "idb_get key (key v) st \<noteq> None \<Longrightarrow>
     idb_put key v st = map (\<lambda>x. if key x = key v then v else x) st"
  by (auto simp: idb_get_def idb_put_def list_ex_iff find_None_iff)

lemma lectureId_resetInterrupted: "lectureId (resetInterrupted t) = lectureId t"
  by (simp add: resetInterrupted_def)

lemma map_of_foldl_update:
  assumes "distinct (map key ts)" and "t \<in> set ts"
  shows "map_of (foldl (\<lambda>m task. AList.update (key task) (f task) m) m0 ts) (key t) = Some (f t)"
  using assms
proof (induction ts arbitrary: m0 rule: rev_induct)
  case Nil
  then show ?case by simp
next
  case (snoc x xs)
  show ?case
  proof (cases "t = x")
    case True
    then show ?thesis by (simp add: update_conv')
  next
    case False
    with snoc.prems have "t \<in> set xs" "distinct (map key xs)" "key x \<noteq> key t"
      by auto
    with snoc.IH show ?thesis by (simp add: update_conv')
  qed
qed

lemma freedBy_simps [simp]:
  "freedBy [] = 0" "freedBy (x # xs) = int (ca_size x) + freedBy xs"
  by (simp_all add: freedBy_def)

lemma freedBy_nonneg: "0 \<le> freedBy xs"
  by (induction xs) simp_all

lemma freedBy_take_le: "freedBy (take n xs) \<le> freedBy xs"
proof (induction xs arbitrary: n)
  case Nil
  then show ?case by simp
next
  case (Cons x xs)
  then show ?case by (cases n) (simp_all add: freedBy_nonneg)
qed

lemma evict_loop_prefix:
  "\<exists>n\<le>length xs.
      evict_loop target xs freed del
        = (freed + freedBy (take n xs), del @ map ca_lectureId (take n xs))
    \<and> (\<forall>m<n. freed + freedBy (take m xs) < target)
    \<and> (n = length xs \<or> target \<le> freed + freedBy (take n xs))"
proof (induction xs arbitrary: freed del)
  case Nil
  then show ?case by simp
next
  case (Cons x xs)
  show ?case
  proof (cases "target \<le> freed")
    case True
    then have "evict_loop target (x # xs) freed del = (freed + freedBy (take 0 (x # xs)), del @ map ca_lectureId (take 0 (x # xs)))"
      by simp
    with True show ?thesis by (intro exI[of _ 0]) simp
  next
    case False
    from Cons.IH[of "freed + int (ca_size x)" "del @ [ca_lectureId x]"]
    obtain n where n: "n \<le> length xs"
      and r: "evict_loop target xs (freed + int (ca_size x)) (del @ [ca_lectureId x])
               = (freed + int (ca_size x) + freedBy (take n xs),
                  (del @ [ca_lectureId x]) @ map ca_lectureId (take n xs))"
      and mn: "\<forall>m<n. freed + int (ca_size x) + freedBy (take m xs) < target"
      and fin: "n = length xs \<or> target \<le> freed + int (ca_size x) + freedBy (take n xs)"
      by blast
    have a: "evict_loop target (x # xs) freed del
              = (freed + freedBy (take (Suc n) (x # xs)), del @ map ca_lectureId (take (Suc n) (x # xs)))"
      using False r by (simp add: algebra_simps)
    have b: "\<forall>m<Suc n. freed + freedBy (take m (x # xs)) < target"
    proof (intro allI impI)
      fix m assume "m < Suc n"
      show "freed + freedBy (take m (x # xs)) < target"
      proof (cases m)
        case 0
        with False show ?thesis by simp
      next
        case (Suc k)
        with \<open>m < Suc n\<close> mn have "freed + int (ca_size x) + freedBy (take k xs) < target" by simp
        with Suc show ?thesis by (simp add: algebra_simps)
      qed
    qed
    have c: "Suc n = length (x # xs) \<or> target \<le> freed + freedBy (take (Suc n) (x # xs))"
      using fin by (auto simp: algebra_simps)
    from n a b c show ?thesis by (intro exI[of _ "Suc n"]) simp
  qed
qed

lemma foldl_idb_delete:
  "foldl (\<lambda>st i. idb_delete key i st) st ids = filter (\<lambda>x. key x \<notin> set ids) st"
  by (induction ids arbitrary: st) (auto simp: idb_delete_def intro!: filter_cong)

lemma evictToFreeSpace_eq:
  "evictToFreeSpace target d =
     (fst (evict_loop target (evictionOrder d) 0 []),
      d\<lparr>audioCache := filter (\<lambda>e. ca_lectureId e \<notin> set (evictionSet target d)) (audioCache d)\<rparr>)"
  by (simp add: evictToFreeSpace_def evictionOrder_def evictionSet_def foldl_idb_delete
      split: prod.splits)


lemma freedBy_insort_key: "freedBy (insort_key k x xs) = int (ca_size x) + freedBy xs"
  by (induction xs) simp_all

lemma freedBy_sort_key: "freedBy (sort_key k xs) = freedBy xs"
  by (induction xs) (simp_all add: freedBy_insort_key)

lemma prefix_by_key:
  assumes "distinct (map f xs)"
  shows "{x \<in> set xs. f x \<notin> f ` set (take n xs)} = set (drop n xs)"
proof -
  have d: "distinct (map f (take n xs @ drop n xs))" using assms by simp
  then have disj: "f ` set (take n xs) \<inter> f ` set (drop n xs) = {}"
    by (simp only: map_append distinct_append set_map) 
  have u: "set xs = set (take n xs) \<union> set (drop n xs)"
    by (metis append_take_drop_id set_append)
  show ?thesis using disj u by blast
qed

lemma db_startDownload: "db (startDownload lid w) = db w"
  by (simp add: startDownload_def)

lemma db_foldl_startDownload:
  "db (foldl (\<lambda>w' task. startDownload (lectureId task) w') w ts) = db w"
  by (induction ts arbitrary: w) (simp_all add: db_startDownload)

lemma db_processQueue: "db (processQueue w) = db w"
  by (simp add: processQueue_def Let_def db_foldl_startDownload)

lemma map_fst_update_present:
  "map_of al k = Some t \<Longrightarrow> map fst (AList.update k v al) = map fst al"
  by (induction al) (auto split: if_splits)

lemma available_getStorageStats:
  "available (getStorageStats est d)
     = (case est of None \<Rightarrow> 0 | Some e \<Rightarrow> or_zero (est_quota e) - or_zero (est_usage e))"
  by (simp add: getStorageStats_def Let_def split: option.splits)

lemma sampleWorld_tasks:
  "tasks (store sampleWorld) = [(''A'', (sampleTask ''A'' Downloading)\<lparr>status := Pending, progress := 0\<rparr>),
      (''B'', sampleTask ''B'' Pending), (''C'', sampleTask ''C'' Pending)]"
  by (simp add: sampleWorld_def loadExistingTasks_def init_world_def sampleDB_def getAllDownloads_def
        resetInterrupted_def sampleTask_def initialState_def)

lemma sample_available:
  "available (getStorageStats (sampleEstimate q u) d) = q * 1024 * 1024 - u * 1024 * 1024"
  by (simp add: available_getStorageStats sampleEstimate_def or_zero_def)

lemma reachable_run: "reachable w \<Longrightarrow> reachable (run evs w)"
proof (induction evs rule: rev_induct)
  case Nil
  then show ?case by (simp add: run_def)
next
  case (snoc e evs)
  then have "reachable (step e (run evs w))" by (simp add: reachable_step)
  then show ?case by (simp add: run_def)
qed

lemma running_startDownload:
  "running (startDownload lid w) = running w @ [(calls w, AwaitLecture lid)]"
  by (simp add: startDownload_def)

lemma calls_startDownload: "calls (startDownload lid w) = calls w + 1"
  by (simp add: startDownload_def)

lemma running_foldl_startDownload:
  "map snd (running (foldl (\<lambda>w' task. startDownload (lectureId task) w') w ts))
     = map snd (running w) @ map (\<lambda>task. AwaitLecture (lectureId task)) ts"
  by (induction ts arbitrary: w) (simp_all add: running_startDownload)

lemma running_foldl_startDownload_mono:
  "set (running w) \<subseteq> set (running (foldl (\<lambda>w' task. startDownload (lectureId task) w') w ts))"
proof (induction ts arbitrary: w)
  case Nil
  then show ?case by simp
next
  case (Cons t ts)
  have "set (running w) \<subseteq> set (running (startDownload (lectureId t) w))"
    by (simp add: running_startDownload subset_insertI)
  also have "\<dots> \<subseteq> set (running (foldl (\<lambda>w' task. startDownload (lectureId task) w')
                       (startDownload (lectureId t) w) ts))"
    by (rule Cons.IH)
  finally show ?case by simp
qed

lemma running_foldl_startDownload_first:
  "(calls w, AwaitLecture (lectureId t))
     \<in> set (running (foldl (\<lambda>w' task. startDownload (lectureId task) w') w (t # ts)))"
proof -
  have "(calls w, AwaitLecture (lectureId t)) \<in> set (running (startDownload (lectureId t) w))"
    by (simp add: running_startDownload)
  then show ?thesis
    using running_foldl_startDownload_mono[of "startDownload (lectureId t) w" ts] by auto
qed

lemma processQueue_idle:
  assumes "isPaused (store w) \<or> MAX_CONCURRENT_DOWNLOADS - int (length (activeDownloads (store w))) \<le> 0
     \<or> filter (\<lambda>t. status t = Pending) (map snd (tasks (store w))) = []"
  shows "processQueue w = w"
proof (cases "isPaused (store w)")
  case True
  then have "isPaused (store w) = True" by simp
  then show ?thesis by (simp only: processQueue_def Let_def if_True)
next
  case False
  then have a: "isPaused (store w) = False" by simp
  from assms False have b: "(MAX_CONCURRENT_DOWNLOADS - int (length (activeDownloads (store w))) \<le> 0
     \<or> filter (\<lambda>t. status t = Pending) (map snd (tasks (store w))) = []) = True" by blast
  show ?thesis by (simp only: processQueue_def Let_def a b if_True if_False)
qed

lemma processQueue_busy:
  assumes "\<not> isPaused (store w)"
    and "0 < MAX_CONCURRENT_DOWNLOADS - int (length (activeDownloads (store w)))"
    and "filter (\<lambda>t. status t = Pending) (map snd (tasks (store w))) \<noteq> []"
  shows "processQueue w = foldl (\<lambda>w' task. startDownload (lectureId task) w') w
      (take (nat (MAX_CONCURRENT_DOWNLOADS - int (length (activeDownloads (store w)))))
         (filter (\<lambda>t. status t = Pending) (map snd (tasks (store w)))))"
proof -
  from assms(1) have a: "isPaused (store w) = False" by simp
  from assms(2,3) have b: "(MAX_CONCURRENT_DOWNLOADS - int (length (activeDownloads (store w))) \<le> 0
     \<or> filter (\<lambda>t. status t = Pending) (map snd (tasks (store w))) = []) = False" by auto
  show ?thesis by (simp only: processQueue_def Let_def a b if_False)
qed


lemma processQueue_starts:
  "\<exists>ts. map snd (running (processQueue w))
           = map snd (running w) @ map (\<lambda>task. AwaitLecture (lectureId task)) ts
      \<and> int (length ts) \<le> max 0 (MAX_CONCURRENT_DOWNLOADS - int (length (activeDownloads (store w))))
      \<and> (\<forall>t\<in>set ts. status t = Pending \<and> t \<in> snd ` set (tasks (store w)))"
proof -
  let ?p = "filter (\<lambda>t. status t = Pending) (map snd (tasks (store w)))"
  let ?s = "MAX_CONCURRENT_DOWNLOADS - int (length (activeDownloads (store w)))"
  show ?thesis
  proof (cases "isPaused (store w) \<or> ?s \<le> 0 \<or> ?p = []")
    case True
    then have "processQueue w = w" by (rule processQueue_idle)
    then show ?thesis by (intro exI[of _ "[]"]) simp
  next
    case False
    then have "processQueue w = foldl (\<lambda>w' task. startDownload (lectureId task) w') w (take (nat ?s) ?p)"
      by (intro processQueue_busy) auto
    then have 1: "map snd (running (processQueue w))
           = map snd (running w) @ map (\<lambda>task. AwaitLecture (lectureId task)) (take (nat ?s) ?p)"
      by (simp only: running_foldl_startDownload)
    have 2: "int (length (take (nat ?s) ?p)) \<le> max 0 ?s" by simp
    have "set (take (nat ?s) ?p) \<subseteq> set ?p" by (rule set_take_subset)
    then have 3: "\<forall>t\<in>set (take (nat ?s) ?p). status t = Pending \<and> t \<in> snd ` set (tasks (store w))"
      by auto
    from 1 2 3 show ?thesis by blast
  qed
qed

lemma processQueue_promotes_first_pending:
  assumes "\<not> isPaused (store w)"
    and "int (length (activeDownloads (store w))) < MAX_CONCURRENT_DOWNLOADS"
    and "filter (\<lambda>t. status t = Pending) (map snd (tasks (store w))) = p # ps"
  shows "(calls w, AwaitLecture (lectureId p)) \<in> set (running (processQueue w))"
proof -
  let ?s = "MAX_CONCURRENT_DOWNLOADS - int (length (activeDownloads (store w)))"
  from assms(2) have pos: "0 < ?s" by simp
  then obtain k where k: "nat ?s = Suc k" by (cases "nat ?s") auto
  have "processQueue w = foldl (\<lambda>w' task. startDownload (lectureId task) w') w
          (take (nat ?s) (filter (\<lambda>t. status t = Pending) (map snd (tasks (store w)))))"
    using assms(1) pos assms(3) by (intro processQueue_busy) simp_all
  then have "processQueue w = foldl (\<lambda>w' task. startDownload (lectureId task) w') w (p # take k ps)"
    by (simp only: assms(3) k take_Suc_Cons)
  then show ?thesis by (simp only: running_foldl_startDownload_first)
qed

lemma set_delete_absent: "lid \<notin> set (set_delete lid xs)"
  by (simp add: set_delete_def)

lemma abort_step:
  assumes "map_of (running w) c = Some (AwaitResponse lid lecture)
         \<or> map_of (running w) c = Some (Reading lid lecture tot chunks loaded)"
    and "c \<in> set (aborted w)"
  shows "step (AbortObserved c) w = finallyBlock lid (catchBlock lid AbortError (co_end c w))"
  using assms by auto

lemma catchBlock_abort_present:
  assumes "map_of (tasks (store w)) lid = Some t"
  shows "catchBlock lid AbortError (co_end c w)
     = w\<lparr>running := AList.delete c (running w),
          store := (store w)\<lparr>tasks := AList.update lid (t\<lparr>status := Paused, error := Some ''Download cancelled''\<rparr>) (tasks (store w))\<rparr>,
          db := saveDownloadTask (t\<lparr>status := Paused, error := Some ''Download cancelled''\<rparr>) (db w)\<rparr>"
  using assms by (simp add: catchBlock_def co_end_def updateTask_def Let_def)

subsection \<open>The task map stays well-formed\<close>

lemma tasksInv_tasksOk: "tasksInv w = tasksOk (tasks (store w))"
  by (simp add: tasksInv_def tasksOk_def)

lemma list_all_update:
  "list_all P al \<Longrightarrow> P (k, v) \<Longrightarrow> list_all P (AList.update k v al)"
  by (induction al) auto

lemma tasksOk_update: "tasksOk ts \<Longrightarrow> lectureId v = k \<Longrightarrow> tasksOk (AList.update k v ts)"
  by (simp add: tasksOk_def distinct_update list_all_update)

lemma tasksOk_delete: "tasksOk ts \<Longrightarrow> tasksOk (AList.delete k ts)"
  by (simp add: tasksOk_def AList.delete_eq list_all_iff distinct_map_filter)

lemma tasksOk_lookup: "tasksOk ts \<Longrightarrow> map_of ts k = Some t \<Longrightarrow> lectureId t = k"
  by (auto simp: tasksOk_def list_all_iff dest!: map_of_SomeD)

lemma tasksOk_load:
  "tasksOk m \<Longrightarrow>
   tasksOk (foldl (\<lambda>m task. AList.update (lectureId (resetInterrupted task)) (resetInterrupted task) m) m xs)"
  by (induction xs arbitrary: m) (simp_all add: tasksOk_update)

lemma tasksInv_loadExistingTasks: "tasksInv (loadExistingTasks w)"
proof -
  have "tasksOk []" by (simp add: tasksOk_def)
  then show ?thesis
    by (simp add: tasksInv_tasksOk loadExistingTasks_def Let_def tasksOk_load)
qed

lemma tasksInv_updateTask:
  assumes "tasksInv w" and "\<And>t. lectureId (f t) = lectureId t"
  shows "tasksInv (updateTask lid f w)"
proof (cases "map_of (tasks (store w)) lid")
  case None
  then show ?thesis using assms(1) by (simp add: updateTask_def)
next
  case (Some t)
  with assms(1) have "lectureId t = lid" by (simp add: tasksInv_tasksOk tasksOk_lookup)
  then have "lectureId (f t) = lid" by (simp add: assms(2))
  with assms(1) Some show ?thesis
    by (simp add: updateTask_def Let_def tasksInv_tasksOk tasksOk_update)
qed

lemma tasksInv_store_eq: "tasks (store w') = tasks (store w) \<Longrightarrow> tasksInv w' = tasksInv w"
  by (simp add: tasksInv_def)

lemma tasksInv_processQueue: "tasksInv (processQueue w) = tasksInv w"
  by (simp add: tasksInv_def store_processQueue)

lemma tasksInv_frame [simp]:
  "tasksInv (w\<lparr>db := d\<rparr>) = tasksInv w"
  "tasksInv (w\<lparr>aborted := a\<rparr>) = tasksInv w"
  "tasksInv (w\<lparr>abortControllers := ac\<rparr>) = tasksInv w"
  "tasksInv (w\<lparr>running := r\<rparr>) = tasksInv w"
  "tasksInv (w\<lparr>store := (store w)\<lparr>activeDownloads := ad\<rparr>\<rparr>) = tasksInv w"
  "tasksInv (w\<lparr>store := (store w)\<lparr>isPaused := b\<rparr>\<rparr>) = tasksInv w"
  by (simp_all add: tasksInv_def)

lemma tasksInv_co [simp]:
  "tasksInv (co_set c k w) = tasksInv w" "tasksInv (co_end c w) = tasksInv w"
  by (simp_all add: co_set_def co_end_def)

lemma tasksInv_catchBlock: "tasksInv w \<Longrightarrow> tasksInv (catchBlock lid e w)"
  by (cases e) (simp_all add: catchBlock_def tasksInv_updateTask)

lemma tasksInv_finallyBlock: "tasksInv (finallyBlock lid w) = tasksInv w"
proof -
  have "tasksInv (finallyBlock lid w)
      = tasksInv (w\<lparr>abortControllers := AList.delete lid (abortControllers w),
          store := (store w)\<lparr>activeDownloads := set_delete lid (activeDownloads (store w))\<rparr>\<rparr>)"
    by (simp only: finallyBlock_def tasksInv_processQueue)
  also have "\<dots> = tasksInv w" by (simp add: tasksInv_def)
  finally show ?thesis .
qed

lemma tasksInv_failed: "tasksInv w \<Longrightarrow> tasksInv (finallyBlock lid (catchBlock lid e (co_end c w)))"
  by (simp add: tasksInv_finallyBlock tasksInv_catchBlock)

lemma tasksInv_afterGetLecture: "tasksInv w \<Longrightarrow> tasksInv (afterGetLecture c now lid w)"
  by (simp add: afterGetLecture_def Let_def tasksInv_updateTask tasksInv_failed
      split: option.splits prod.splits)

lemma tasksInv_queueDownload:
  assumes "tasksInv w" and "queueDownload est lecture w = Inr w'"
  shows "tasksInv w'"
proof -
  let ?w1 = "w\<lparr>store := (store w)\<lparr>tasks := AList.update (lecture_id lecture) (freshTask lecture) (tasks (store w))\<rparr>,
                db := saveDownloadTask (freshTask lecture) (db w)\<rparr>"
  from assms(2) have "w' = w \<or> w' = processQueue ?w1"
    by (auto simp: queueDownload_def Let_def freshTask_def split: if_splits)
  moreover have "tasksInv ?w1"
    using assms(1) by (simp add: tasksInv_tasksOk tasksOk_update freshTask_def)
  then have "tasksInv (processQueue ?w1)" by (simp only: tasksInv_processQueue)
  ultimately show ?thesis using assms(1) by blast
qed

lemma tasksInv_pauseDownload: "tasksInv w \<Longrightarrow> tasksInv (pauseDownload lid w)"
  by (simp add: pauseDownload_def Let_def tasksInv_updateTask split: option.splits)

lemma tasksInv_resumeDownload: "tasksInv w \<Longrightarrow> tasksInv (resumeDownload lid w)"
  by (simp add: resumeDownload_def tasksInv_processQueue tasksInv_updateTask)

lemma tasksInv_retryDownload: "tasksInv w \<Longrightarrow> tasksInv (retryDownload lid w)"
  by (simp add: retryDownload_def tasksInv_processQueue tasksInv_updateTask)

lemma tasksInv_cancelDownload: "tasksInv w \<Longrightarrow> tasksInv (cancelDownload lid w)"
  by (simp add: cancelDownload_def Let_def tasksInv_tasksOk tasksOk_delete split: option.splits)

lemma tasksInv_foldl:
  assumes "\<And>w' x. tasksInv w' \<Longrightarrow> tasksInv (f w' x)" and "tasksInv w"
  shows "tasksInv (foldl f w xs)"
  using assms(2) by (induction xs arbitrary: w) (simp_all add: assms(1))

lemma tasksInv_pauseAll: "tasksInv w \<Longrightarrow> tasksInv (pauseAll w)"
  unfolding pauseAll_def
  by (rule tasksInv_foldl) (simp_all add: tasksInv_updateTask split: prod.splits)

lemma tasksInv_resumeAll: "tasksInv w \<Longrightarrow> tasksInv (resumeAll w)"
  unfolding resumeAll_def Let_def tasksInv_processQueue
  by (rule tasksInv_foldl) (simp_all add: tasksInv_updateTask split: prod.splits)

lemma tasksInv_freeUpSpace: "tasksInv w \<Longrightarrow> tasksInv (snd (freeUpSpace est n w))"
proof -
  assume i: "tasksInv w"
  have d: "\<And>w' lid. tasksInv w' \<Longrightarrow>
      tasksInv (w'\<lparr>store := (store w')\<lparr>tasks := AList.delete lid (tasks (store w'))\<rparr>\<rparr>)"
    by (simp add: tasksInv_tasksOk tasksOk_delete)
  show ?thesis
    unfolding freeUpSpace_def Let_def
    by (simp split: prod.splits add: i) (intro allI impI tasksInv_foldl, auto simp: d i)
qed

lemma tasksInv_step: "tasksInv w \<Longrightarrow> tasksInv (step e w)"
proof (cases e)
  case (QueueDownload est lecture)
  assume "tasksInv w"
  then show ?thesis using QueueDownload
    by (auto split: sum.splits dest: tasksInv_queueDownload)
qed (auto simp: tasksInv_loadExistingTasks tasksInv_pauseDownload tasksInv_resumeDownload
      tasksInv_cancelDownload tasksInv_retryDownload tasksInv_pauseAll tasksInv_resumeAll
      tasksInv_freeUpSpace tasksInv_afterGetLecture tasksInv_failed
      afterCacheAudio_def afterSaveLecture_def onProgress_def Let_def
      tasksInv_finallyBlock tasksInv_updateTask tasksInv_catchBlock
      split: option.splits Coroutine.splits)

lemma tasksInv_init: "tasksInv (init_world d)"
  by (simp add: tasksInv_def init_world_def initialState_def)

lemma tasksInv_reachable: "reachable w \<Longrightarrow> tasksInv w"
  by (induction rule: reachable.induct) (simp_all add: tasksInv_init tasksInv_step)

section \<open>Startup: interrupted downloads are reset\<close>

text \<open>
  Claim C5. \<open>loadExistingTasks\<close> puts every persisted task into the task map under its
  lecture id; a task that was persisted as \<open>downloading\<close> is loaded as \<open>pending\<close> with
  progress 0, every other task is loaded as it was persisted. Loading starts no transfer:
  no call of \<open>startDownload\<close> is made. The keys of the \<open>downloads\<close> object store are its
  tasks' lecture ids, so they are distinct.
\<close>

theorem loadExistingTasks_resets_interrupted:
  assumes "distinct (map lectureId (downloads (db w)))"
    and "t \<in> set (downloads (db w))"
  shows "map_of (tasks (store (loadExistingTasks w))) (lectureId t)
           = Some (if status t = Downloading then t\<lparr>status := Pending, progress := 0\<rparr> else t)
         \<and> running (loadExistingTasks w) = running w
         \<and> calls (loadExistingTasks w) = calls w"
proof -
  have "map_of (foldl (\<lambda>m task. AList.update (lectureId task) (resetInterrupted task) m) []
                  (downloads (db w))) (lectureId t)
        = Some (resetInterrupted t)"
    using assms by (rule map_of_foldl_update)
  moreover have "tasks (store (loadExistingTasks w))
        = foldl (\<lambda>m task. AList.update (lectureId task) (resetInterrupted task) m) []
            (downloads (db w))"
    by (simp add: loadExistingTasks_def getAllDownloads_def lectureId_resetInterrupted)
  ultimately have "map_of (tasks (store (loadExistingTasks w))) (lectureId t)
        = Some (resetInterrupted t)"
    by simp
  moreover have "running (loadExistingTasks w) = running w" "calls (loadExistingTasks w) = calls w"
    by (simp_all add: loadExistingTasks_def)
  ultimately show ?thesis
    by (simp add: resetInterrupted_def)
qed

theorem loadExistingTasks_resets_interrupted_witness:
  "distinct (map lectureId (downloads (db (init_world sampleDB))))
   \<and> sampleTask ''A'' Downloading \<in> set (downloads (db (init_world sampleDB)))
   \<and> map_of (tasks (store (loadExistingTasks (init_world sampleDB)))) ''A''
       = Some ((sampleTask ''A'' Downloading)\<lparr>status := Pending, progress := 0\<rparr>)
   \<and> map_of (tasks (store (loadExistingTasks (init_world sampleDB)))) ''B''
       = Some (sampleTask ''B'' Pending)"
proof -
  have h1: "distinct (map lectureId (downloads (db (init_world sampleDB))))"
    by (simp add: init_world_def sampleDB_def sampleTask_def)
  have h2: "sampleTask ''A'' Downloading \<in> set (downloads (db (init_world sampleDB)))"
    by (simp add: init_world_def sampleDB_def)
  have h3: "sampleTask ''B'' Pending \<in> set (downloads (db (init_world sampleDB)))"
    by (simp add: init_world_def sampleDB_def)
  from loadExistingTasks_resets_interrupted[OF h1 h2]
    loadExistingTasks_resets_interrupted[OF h1 h3] h1 h2
  show ?thesis by (simp add: sampleTask_def)
qed

section \<open>Eviction\<close>

text \<open>
  Claim C6, amended. \<open>evictToFreeSpace\<close> walks the inventory in ascending order of
  \<open>lastAccessed\<close> and deletes a prefix of it: the shortest prefix whose sizes add up to at
  least the target (no shorter prefix reaches the target), or the whole inventory when
  the target exceeds the cached bytes; it returns the bytes of that prefix, and the
  entries that remain are those after the prefix. For blobs A, B, C of 10, 20 and 30 MB,
  used in this order, a request for 25 MB deletes A and B and keeps C, and frees
  30 MB (10 + 20).
\<close>

theorem evictToFreeSpace_evicts_lru_prefix:
  "(\<exists>n\<le>length (evictionOrder d).
        evictionSet target d = map ca_lectureId (take n (evictionOrder d))
      \<and> evictToFreeSpace target d
          = (freedBy (take n (evictionOrder d)),
             d\<lparr>audioCache := filter (\<lambda>e. ca_lectureId e \<notin> set (evictionSet target d)) (audioCache d)\<rparr>)
      \<and> (\<forall>m<n. freedBy (take m (evictionOrder d)) < target)
      \<and> (n = length (evictionOrder d) \<or> target \<le> freedBy (take n (evictionOrder d)))
      \<and> (freedBy (audioCache d) < target \<longrightarrow> n = length (evictionOrder d))
      \<and> (distinct (map ca_lectureId (audioCache d)) \<longrightarrow>
            set (audioCache (snd (evictToFreeSpace target d))) = set (drop n (evictionOrder d))))
   \<and> sorted (map lastAccessed (evictionOrder d))
   \<and> set (evictionOrder d) = set (audioCache d)
   \<and> length (evictionOrder d) = length (audioCache d)
   \<and> (tA < tB \<and> tB < tC \<longrightarrow>
        evictToFreeSpace (25 * 1024 * 1024)
          \<lparr>lectures = ls,
           audioCache =
             [\<lparr>ca_lectureId = ''A'', blob = bA, ca_size = 10 * 1024 * 1024, cachedAt = cA, lastAccessed = tA\<rparr>,
              \<lparr>ca_lectureId = ''B'', blob = bB, ca_size = 20 * 1024 * 1024, cachedAt = cB, lastAccessed = tB\<rparr>,
              \<lparr>ca_lectureId = ''C'', blob = bC, ca_size = 30 * 1024 * 1024, cachedAt = cC, lastAccessed = tC\<rparr>],
           downloads = ds\<rparr>
        = (30 * 1024 * 1024,
           \<lparr>lectures = ls,
            audioCache =
              [\<lparr>ca_lectureId = ''C'', blob = bC, ca_size = 30 * 1024 * 1024, cachedAt = cC, lastAccessed = tC\<rparr>],
            downloads = ds\<rparr>))"
proof -
  let ?o = "evictionOrder d"
  from evict_loop_prefix[of ?o target 0 "[]"]
  obtain n where n: "n \<le> length ?o"
    and r: "evict_loop target ?o 0 [] = (freedBy (take n ?o), map ca_lectureId (take n ?o))"
    and mn: "\<forall>m<n. freedBy (take m ?o) < target"
    and fin: "n = length ?o \<or> target \<le> freedBy (take n ?o)"
    by auto
  have es: "evictionSet target d = map ca_lectureId (take n ?o)"
    by (simp add: evictionSet_def r)
  have ev: "evictToFreeSpace target d
          = (freedBy (take n ?o),
             d\<lparr>audioCache := filter (\<lambda>e. ca_lectureId e \<notin> set (evictionSet target d)) (audioCache d)\<rparr>)"
    by (simp add: evictToFreeSpace_eq r)
  have all: "freedBy (audioCache d) < target \<longrightarrow> n = length ?o"
  proof
    assume lt: "freedBy (audioCache d) < target"
    have "freedBy (take n ?o) \<le> freedBy ?o" by (rule freedBy_take_le)
    also have "\<dots> = freedBy (audioCache d)" by (simp add: evictionOrder_def freedBy_sort_key)
    finally have "freedBy (take n ?o) < target" using lt by simp
    with fin show "n = length ?o" by simp
  qed
  have rest: "distinct (map ca_lectureId (audioCache d)) \<longrightarrow>
            set (audioCache (snd (evictToFreeSpace target d))) = set (drop n ?o)"
  proof
    assume "distinct (map ca_lectureId (audioCache d))"
    then have "distinct (map ca_lectureId ?o)"
      by (simp add: evictionOrder_def distinct_map)
    from prefix_by_key[OF this, of n]
    show "set (audioCache (snd (evictToFreeSpace target d))) = set (drop n ?o)"
      by (simp add: ev es) (simp add: evictionOrder_def)
  qed
  have srt: "sorted (map lastAccessed ?o)" by (simp add: evictionOrder_def)
  have st: "set ?o = set (audioCache d)" by (simp add: evictionOrder_def)
  have ln: "length ?o = length (audioCache d)" by (simp add: evictionOrder_def)
  have ex: "tA < tB \<and> tB < tC \<longrightarrow>
        evictToFreeSpace (25 * 1024 * 1024)
          \<lparr>lectures = ls,
           audioCache =
             [\<lparr>ca_lectureId = ''A'', blob = bA, ca_size = 10 * 1024 * 1024, cachedAt = cA, lastAccessed = tA\<rparr>,
              \<lparr>ca_lectureId = ''B'', blob = bB, ca_size = 20 * 1024 * 1024, cachedAt = cB, lastAccessed = tB\<rparr>,
              \<lparr>ca_lectureId = ''C'', blob = bC, ca_size = 30 * 1024 * 1024, cachedAt = cC, lastAccessed = tC\<rparr>],
           downloads = ds\<rparr>
        = (30 * 1024 * 1024,
           \<lparr>lectures = ls,
            audioCache =
              [\<lparr>ca_lectureId = ''C'', blob = bC, ca_size = 30 * 1024 * 1024, cachedAt = cC, lastAccessed = tC\<rparr>],
            downloads = ds\<rparr>)"
  proof (intro impI, elim conjE)
    assume lt: "tA < tB" "tB < tC"
    then have le: "tA \<le> tB" "tB \<le> tC" "tA \<le> tC" by simp_all
    have srt3: "sort_key lastAccessed
             [\<lparr>ca_lectureId = ''A'', blob = bA, ca_size = 10 * 1024 * 1024, cachedAt = cA, lastAccessed = tA\<rparr>,
              \<lparr>ca_lectureId = ''B'', blob = bB, ca_size = 20 * 1024 * 1024, cachedAt = cB, lastAccessed = tB\<rparr>,
              \<lparr>ca_lectureId = ''C'', blob = bC, ca_size = 30 * 1024 * 1024, cachedAt = cC, lastAccessed = tC\<rparr>]
           = [\<lparr>ca_lectureId = ''A'', blob = bA, ca_size = 10 * 1024 * 1024, cachedAt = cA, lastAccessed = tA\<rparr>,
              \<lparr>ca_lectureId = ''B'', blob = bB, ca_size = 20 * 1024 * 1024, cachedAt = cB, lastAccessed = tB\<rparr>,
              \<lparr>ca_lectureId = ''C'', blob = bC, ca_size = 30 * 1024 * 1024, cachedAt = cC, lastAccessed = tC\<rparr>]"
      using le by simp
    show "evictToFreeSpace (25 * 1024 * 1024)
          \<lparr>lectures = ls,
           audioCache =
             [\<lparr>ca_lectureId = ''A'', blob = bA, ca_size = 10 * 1024 * 1024, cachedAt = cA, lastAccessed = tA\<rparr>,
              \<lparr>ca_lectureId = ''B'', blob = bB, ca_size = 20 * 1024 * 1024, cachedAt = cB, lastAccessed = tB\<rparr>,
              \<lparr>ca_lectureId = ''C'', blob = bC, ca_size = 30 * 1024 * 1024, cachedAt = cC, lastAccessed = tC\<rparr>],
           downloads = ds\<rparr>
        = (30 * 1024 * 1024,
           \<lparr>lectures = ls,
            audioCache =
              [\<lparr>ca_lectureId = ''C'', blob = bC, ca_size = 30 * 1024 * 1024, cachedAt = cC, lastAccessed = tC\<rparr>],
            downloads = ds\<rparr>)"
      unfolding evictToFreeSpace_def Let_def DB.simps srt3
      by (simp add: idb_delete_def)
  qed
  from n es ev mn fin all rest srt st ln ex show ?thesis by blast
qed

theorem evictToFreeSpace_evicts_lru_prefix_witness:
  "(100::int) < 200 \<and> (200::int) < 300
   \<and> distinct (map ca_lectureId (audioCache sampleCache))
   \<and> evictToFreeSpace (25 * 1024 * 1024) sampleCache
       = (30 * 1024 * 1024,
          sampleCache\<lparr>audioCache := [sampleEntry ''C'' (30 * 1024 * 1024) 300]\<rparr>)"
proof -
  have "(100::int) < 200 \<and> (200::int) < 300" by simp
  moreover have "distinct (map ca_lectureId (audioCache sampleCache))"
    by (simp add: sampleCache_def sampleEntry_def)
  ultimately show ?thesis
    using evictToFreeSpace_evicts_lru_prefix[where tA = 100 and tB = 200 and tC = 300
        and ls = "[]" and ds = "[]"
        and bA = "replicate (10 * 1024 * 1024) 0" and cA = 100
        and bB = "replicate (20 * 1024 * 1024) 0" and cB = 200
        and bC = "replicate (30 * 1024 * 1024) 0" and cC = 300]
    by (simp add: sampleCache_def sampleEntry_def)
qed

text \<open>
  The figure of 40 MB for this example does not come out: the two deleted blobs hold
  10 MB and 20 MB.
\<close>

theorem evict_example_frees_30_not_40:
  "fst (evictToFreeSpace (25 * 1024 * 1024) sampleCache) = 30 * 1024 * 1024
   \<and> fst (evictToFreeSpace (25 * 1024 * 1024) sampleCache) \<noteq> 40 * 1024 * 1024
   \<and> map ca_lectureId (audioCache (snd (evictToFreeSpace (25 * 1024 * 1024) sampleCache))) = [''C'']"
  by (simp add: evictToFreeSpace_def sampleCache_def sampleEntry_def idb_delete_def)

section \<open>Reading the cache\<close>

text \<open>
  Claim C8. \<open>getCachedAudio\<close> on a cached lecture returns the stored blob and writes the
  entry back with \<open>lastAccessed\<close> set to the current time and every other field (blob,
  size, \<open>cachedAt\<close>) as it was; the other entries, their order and the other object
  stores are untouched. On a lecture that is not cached it returns \<open>undefined\<close> and
  changes nothing.
\<close>

theorem getCachedAudio_refreshes_lastAccessed:
  "(\<forall>e. idb_get ca_lectureId lid (audioCache d) = Some e \<longrightarrow>
        fst (getCachedAudio now lid d) = Some (blob e)
      \<and> idb_get ca_lectureId lid (audioCache (snd (getCachedAudio now lid d)))
          = Some (e\<lparr>lastAccessed := now\<rparr>)
      \<and> (\<forall>k. k \<noteq> lid \<longrightarrow>
            idb_get ca_lectureId k (audioCache (snd (getCachedAudio now lid d)))
             = idb_get ca_lectureId k (audioCache d))
      \<and> map ca_lectureId (audioCache (snd (getCachedAudio now lid d))) = map ca_lectureId (audioCache d)
      \<and> lectures (snd (getCachedAudio now lid d)) = lectures d
      \<and> downloads (snd (getCachedAudio now lid d)) = downloads d)
   \<and> (idb_get ca_lectureId lid (audioCache d) = None \<longrightarrow> getCachedAudio now lid d = (None, d))"
proof (intro conjI allI impI)
  fix e assume e: "idb_get ca_lectureId lid (audioCache d) = Some e"
  then have k: "ca_lectureId e = lid" by (simp add: idb_get_key)
  let ?e' = "e\<lparr>lastAccessed := now\<rparr>"
  have k': "ca_lectureId ?e' = lid" using k by simp
  have r: "getCachedAudio now lid d = (Some (blob e), d\<lparr>audioCache := idb_put ca_lectureId ?e' (audioCache d)\<rparr>)"
    using e by (simp add: getCachedAudio_def)
  show "fst (getCachedAudio now lid d) = Some (blob e)" by (simp add: r)
  show "idb_get ca_lectureId lid (audioCache (snd (getCachedAudio now lid d))) = Some ?e'"
    using k' by (simp add: r idb_get_put del: CachedAudio.simps)
  show "lectures (snd (getCachedAudio now lid d)) = lectures d" by (simp add: r)
  show "downloads (snd (getCachedAudio now lid d)) = downloads d" by (simp add: r)
  have p: "idb_put ca_lectureId ?e' (audioCache d)
           = map (\<lambda>x. if ca_lectureId x = ca_lectureId ?e' then ?e' else x) (audioCache d)"
    by (rule idb_put_present) (simp add: k e)
  show "map ca_lectureId (audioCache (snd (getCachedAudio now lid d))) = map ca_lectureId (audioCache d)"
    unfolding r snd_conv by (simp add: p)
  fix k assume "k \<noteq> lid"
  then show "idb_get ca_lectureId k (audioCache (snd (getCachedAudio now lid d)))
             = idb_get ca_lectureId k (audioCache d)"
    using k' by (simp add: r idb_get_put del: CachedAudio.simps)
next
  assume "idb_get ca_lectureId lid (audioCache d) = None"
  then show "getCachedAudio now lid d = (None, d)" by (simp add: getCachedAudio_def)
qed

theorem getCachedAudio_refreshes_lastAccessed_witness:
  "idb_get ca_lectureId ''B'' (audioCache sampleCache) = Some (sampleEntry ''B'' (20 * 1024 * 1024) 200)
   \<and> fst (getCachedAudio 999 ''B'' sampleCache) = Some (replicate (20 * 1024 * 1024) 0)
   \<and> idb_get ca_lectureId ''B'' (audioCache (snd (getCachedAudio 999 ''B'' sampleCache)))
       = Some ((sampleEntry ''B'' (20 * 1024 * 1024) 200)\<lparr>lastAccessed := 999\<rparr>)
   \<and> idb_get ca_lectureId ''Z'' (audioCache sampleCache) = None
   \<and> getCachedAudio 999 ''Z'' sampleCache = (None, sampleCache)"
proof -
  have h: "idb_get ca_lectureId ''B'' (audioCache sampleCache) = Some (sampleEntry ''B'' (20 * 1024 * 1024) 200)"
    by (simp add: idb_get_def sampleCache_def sampleEntry_def)
  have z: "idb_get ca_lectureId ''Z'' (audioCache sampleCache) = None"
    by (simp add: idb_get_def sampleCache_def sampleEntry_def)
  from getCachedAudio_refreshes_lastAccessed[of "''B''" sampleCache 999] h
  have "fst (getCachedAudio 999 ''B'' sampleCache) = Some (blob (sampleEntry ''B'' (20 * 1024 * 1024) 200))
      \<and> idb_get ca_lectureId ''B'' (audioCache (snd (getCachedAudio 999 ''B'' sampleCache)))
          = Some ((sampleEntry ''B'' (20 * 1024 * 1024) 200)\<lparr>lastAccessed := 999\<rparr>)"
    by blast
  moreover from getCachedAudio_refreshes_lastAccessed[of "''Z''" sampleCache 999] z
  have "getCachedAudio 999 ''Z'' sampleCache = (None, sampleCache)" by blast
  ultimately show ?thesis using h z by (simp add: sampleEntry_def)
qed

section \<open>Retry\<close>

text \<open>
  Claim C9. \<open>retryDownload\<close> checks no status: whatever the status of the task of the
  lecture is (completed, downloading and paused included), the task afterwards has status
  \<open>pending\<close>, progress 0, no bytes downloaded and no error, and is otherwise as before.
\<close>

theorem retryDownload_resets_any_status:
  "map_of (tasks (store w)) lid = Some t \<Longrightarrow>
     map_of (tasks (store (retryDownload lid w))) lid
       = Some (t\<lparr>status := Pending, progress := 0, bytesDownloaded := 0, error := None\<rparr>)"
  by (simp add: retryDownload_def store_processQueue updateTask_def update_conv' Let_def)

theorem retryDownload_resets_any_status_witness:
  "map_of (tasks (store (loadExistingTasks (init_world sampleDB)))) ''B'' = Some (sampleTask ''B'' Pending)
   \<and> map_of (tasks (store (retryDownload ''B'' (loadExistingTasks (init_world sampleDB))))) ''B''
       = Some ((sampleTask ''B'' Pending)\<lparr>progress := 0, bytesDownloaded := 0\<rparr>)"
proof -
  have h: "map_of (tasks (store (loadExistingTasks (init_world sampleDB)))) ''B'' = Some (sampleTask ''B'' Pending)"
    by (simp add: loadExistingTasks_def init_world_def sampleDB_def getAllDownloads_def
        resetInterrupted_def sampleTask_def initialState_def)
  from retryDownload_resets_any_status[OF h] h show ?thesis
    by (simp add: sampleTask_def)
qed

section \<open>Enqueueing\<close>

text \<open>
  Claim C1, amended. \<open>queueDownload\<close> makes one storage check and never evicts. For a
  lecture that has no completed or downloading task: with \<open>available\<close> the quota minus
  the usage of the browser's estimate (0 without an estimate), the call fails with the
  insufficient-storage error, and changes nothing, exactly when \<open>available\<close> is at most
  the declared file size plus the fixed buffer of 50 MiB; otherwise it creates the
  pending task. The audio cache is the same after the call in both cases.
\<close>

theorem queueDownload_storage_check:
  assumes "case map_of (tasks (store w)) (lecture_id lecture) of
             Some t \<Rightarrow> status t \<noteq> Completed \<and> status t \<noteq> Downloading
           | None \<Rightarrow> True"
  shows "available (getStorageStats est (db w))
           = (case est of None \<Rightarrow> 0 | Some e \<Rightarrow> or_zero (est_quota e) - or_zero (est_usage e))
   \<and> (available (getStorageStats est (db w)) \<le> fileSize lecture + 50 * 1024 * 1024 \<longrightarrow>
          queueDownload est lecture w
            = Inl (Error ''Insufficient storage space. Please free up some space.'')
        \<and> step (QueueDownload est lecture) w = w)
   \<and> (available (getStorageStats est (db w)) > fileSize lecture + 50 * 1024 * 1024 \<longrightarrow>
          (\<exists>w'. queueDownload est lecture w = Inr w'
              \<and> map_of (tasks (store w')) (lecture_id lecture) = Some (freshTask lecture)
              \<and> audioCache (db w') = audioCache (db w)))"
proof (intro conjI impI)
  show "available (getStorageStats est (db w))
           = (case est of None \<Rightarrow> 0 | Some e \<Rightarrow> or_zero (est_quota e) - or_zero (est_usage e))"
    by (rule available_getStorageStats)
next
  assume "available (getStorageStats est (db w)) \<le> fileSize lecture + 50 * 1024 * 1024"
  then have c: "\<not> checkStorageAvailability est (fileSize lecture) (db w)"
    by (simp add: checkStorageAvailability_def Let_def STORAGE_BUFFER_MB_def)
  with assms show q: "queueDownload est lecture w
            = Inl (Error ''Insufficient storage space. Please free up some space.'')"
    by (simp add: queueDownload_def Let_def split: option.splits)
  then show "step (QueueDownload est lecture) w = w" by simp
next
  assume "available (getStorageStats est (db w)) > fileSize lecture + 50 * 1024 * 1024"
  then have c: "checkStorageAvailability est (fileSize lecture) (db w)"
    by (simp add: checkStorageAvailability_def Let_def STORAGE_BUFFER_MB_def)
  let ?w' = "processQueue
       (w\<lparr>store := (store w)\<lparr>tasks := AList.update (lecture_id lecture) (freshTask lecture) (tasks (store w))\<rparr>,
           db := saveDownloadTask (freshTask lecture) (db w)\<rparr>)"
  have q: "queueDownload est lecture w = Inr ?w'"
    using assms c by (simp add: queueDownload_def Let_def freshTask_def split: option.splits)
  have 1: "map_of (tasks (store ?w')) (lecture_id lecture) = Some (freshTask lecture)"
    by (simp add: store_processQueue update_conv')
  have 2: "audioCache (db ?w') = audioCache (db w)"
    by (simp add: db_processQueue saveDownloadTask_def)
  from q 1 2 show "\<exists>w'. queueDownload est lecture w = Inr w'
              \<and> map_of (tasks (store w')) (lecture_id lecture) = Some (freshTask lecture)
              \<and> audioCache (db w') = audioCache (db w)"
    by blast
qed

theorem queueDownload_storage_check_witness:
  "(case map_of (tasks (store (init_world sampleCache))) (lecture_id (sampleLecture ''X'' (5 * 1024 * 1024))) of
      Some t \<Rightarrow> status t \<noteq> Completed \<and> status t \<noteq> Downloading | None \<Rightarrow> True)
   \<and> queueDownload (sampleEstimate 100 90) (sampleLecture ''X'' (5 * 1024 * 1024)) (init_world sampleCache)
       = Inl (Error ''Insufficient storage space. Please free up some space.'')
   \<and> (\<exists>w'. queueDownload (sampleEstimate 100 40) (sampleLecture ''X'' (5 * 1024 * 1024)) (init_world sampleCache) = Inr w'
          \<and> map_of (tasks (store w')) ''X'' = Some (freshTask (sampleLecture ''X'' (5 * 1024 * 1024)))
          \<and> audioCache (db w') = audioCache sampleCache)"
proof -
  have h: "case map_of (tasks (store (init_world sampleCache))) (lecture_id (sampleLecture ''X'' (5 * 1024 * 1024))) of
      Some t \<Rightarrow> status t \<noteq> Completed \<and> status t \<noteq> Downloading | None \<Rightarrow> True"
    by (simp add: init_world_def initialState_def)
  have f: "fileSize (sampleLecture ''X'' (5 * 1024 * 1024)) = 5 * 1024 * 1024"
    "lecture_id (sampleLecture ''X'' (5 * 1024 * 1024)) = ''X''"
    by (simp_all add: sampleLecture_def)
  have d: "db (init_world sampleCache) = sampleCache" by (simp add: init_world_def)
  have lo: "available (getStorageStats (sampleEstimate 100 90) (db (init_world sampleCache)))
              \<le> fileSize (sampleLecture ''X'' (5 * 1024 * 1024)) + 50 * 1024 * 1024"
    by (simp add: sample_available sampleLecture_def)
  have hi: "available (getStorageStats (sampleEstimate 100 40) (db (init_world sampleCache)))
              > fileSize (sampleLecture ''X'' (5 * 1024 * 1024)) + 50 * 1024 * 1024"
    by (simp add: sample_available sampleLecture_def)
  from queueDownload_storage_check[OF h, of "sampleEstimate 100 90"] lo
  have a: "queueDownload (sampleEstimate 100 90) (sampleLecture ''X'' (5 * 1024 * 1024)) (init_world sampleCache)
       = Inl (Error ''Insufficient storage space. Please free up some space.'')"
    by blast
  from queueDownload_storage_check[OF h, of "sampleEstimate 100 40"] hi
  have "\<exists>w'. queueDownload (sampleEstimate 100 40) (sampleLecture ''X'' (5 * 1024 * 1024)) (init_world sampleCache) = Inr w'
          \<and> map_of (tasks (store w')) (lecture_id (sampleLecture ''X'' (5 * 1024 * 1024)))
               = Some (freshTask (sampleLecture ''X'' (5 * 1024 * 1024)))
          \<and> audioCache (db w') = audioCache (db (init_world sampleCache))"
    by blast
  then have b: "\<exists>w'. queueDownload (sampleEstimate 100 40) (sampleLecture ''X'' (5 * 1024 * 1024)) (init_world sampleCache) = Inr w'
          \<and> map_of (tasks (store w')) ''X'' = Some (freshTask (sampleLecture ''X'' (5 * 1024 * 1024)))
          \<and> audioCache (db w') = audioCache sampleCache"
    unfolding f d .
  from h a b show ?thesis by blast
qed

text \<open>
  With a quota of 100 MB, 90 MB used and 60 MB of evictable blobs in the cache, enqueueing
  a 5 MB lecture fails and the cache still holds all three blobs, although evicting for
  45 MB would free 60 MB. With 75 MB used (15 MB less) the same call still fails, since
  25 MB do not exceed 5 MB plus the 50 MiB buffer.
\<close>

theorem queueDownload_fails_without_evicting:
  "queueDownload (sampleEstimate 100 90) (sampleLecture ''X'' (5 * 1024 * 1024)) (init_world sampleCache)
       = Inl (Error ''Insufficient storage space. Please free up some space.'')
   \<and> map ca_lectureId (audioCache (db (step (QueueDownload (sampleEstimate 100 90)
         (sampleLecture ''X'' (5 * 1024 * 1024))) (init_world sampleCache)))) = [''A'', ''B'', ''C'']
   \<and> fst (evictToFreeSpace (45 * 1024 * 1024) sampleCache) = 60 * 1024 * 1024
   \<and> queueDownload (sampleEstimate 100 75) (sampleLecture ''X'' (5 * 1024 * 1024)) (init_world sampleCache)
       = Inl (Error ''Insufficient storage space. Please free up some space.'')"
proof -
  have q: "\<And>u. u \<ge> 45 \<Longrightarrow> queueDownload (sampleEstimate 100 u) (sampleLecture ''X'' (5 * 1024 * 1024)) (init_world sampleCache)
       = Inl (Error ''Insufficient storage space. Please free up some space.'')"
    by (simp add: queueDownload_def Let_def checkStorageAvailability_def sample_available
        STORAGE_BUFFER_MB_def init_world_def initialState_def sampleLecture_def)
  have e: "fst (evictToFreeSpace (45 * 1024 * 1024) sampleCache) = 60 * 1024 * 1024"
    by (simp add: evictToFreeSpace_def sampleCache_def sampleEntry_def idb_delete_def)
  have c: "map ca_lectureId (audioCache (db (init_world sampleCache))) = [''A'', ''B'', ''C'']"
    by (simp add: init_world_def sampleCache_def sampleEntry_def)
  show ?thesis using q[of 90] q[of 75] e c by simp
qed

text \<open>
  Claim C10, amended. When the lecture already has a task: if the task is completed or
  downloading, \<open>queueDownload\<close> returns normally and the whole world (task map, task,
  persistent store) is unchanged; if it is pending, paused or failed, the call replaces it
  in place, in the map and in the store, by a fresh pending task with progress 0 and no
  bytes downloaded, provided the storage check passes, and raises the
  insufficient-storage error otherwise.
\<close>

theorem queueDownload_existing_task:
  assumes "map_of (tasks (store w)) (lecture_id lecture) = Some t"
  shows "(status t = Completed \<or> status t = Downloading \<longrightarrow> queueDownload est lecture w = Inr w)
   \<and> (status t \<noteq> Completed \<and> status t \<noteq> Downloading
        \<and> checkStorageAvailability est (fileSize lecture) (db w) \<longrightarrow>
        (\<exists>w'. queueDownload est lecture w = Inr w'
            \<and> map_of (tasks (store w')) (lecture_id lecture) = Some (freshTask lecture)
            \<and> map fst (tasks (store w')) = map fst (tasks (store w))
            \<and> idb_get lectureId (lecture_id lecture) (downloads (db w')) = Some (freshTask lecture)))
   \<and> (status t \<noteq> Completed \<and> status t \<noteq> Downloading
        \<and> \<not> checkStorageAvailability est (fileSize lecture) (db w) \<longrightarrow>
        queueDownload est lecture w
          = Inl (Error ''Insufficient storage space. Please free up some space.''))"
proof (intro conjI impI)
  assume "status t = Completed \<or> status t = Downloading"
  with assms show "queueDownload est lecture w = Inr w"
    by (simp add: queueDownload_def Let_def)
next
  assume a: "status t \<noteq> Completed \<and> status t \<noteq> Downloading
        \<and> checkStorageAvailability est (fileSize lecture) (db w)"
  let ?w' = "processQueue
       (w\<lparr>store := (store w)\<lparr>tasks := AList.update (lecture_id lecture) (freshTask lecture) (tasks (store w))\<rparr>,
           db := saveDownloadTask (freshTask lecture) (db w)\<rparr>)"
  have q: "queueDownload est lecture w = Inr ?w'"
    using assms a by (simp add: queueDownload_def Let_def freshTask_def)
  have k: "lectureId (freshTask lecture) = lecture_id lecture" by (simp add: freshTask_def)
  have 1: "map_of (tasks (store ?w')) (lecture_id lecture) = Some (freshTask lecture)"
    by (simp add: store_processQueue update_conv')
  have 2: "map fst (tasks (store ?w')) = map fst (tasks (store w))"
    using assms by (simp add: store_processQueue map_fst_update_present)
  have 3: "idb_get lectureId (lecture_id lecture) (downloads (db ?w')) = Some (freshTask lecture)"
    using k by (simp add: db_processQueue saveDownloadTask_def idb_get_put)
  from q 1 2 3 show "\<exists>w'. queueDownload est lecture w = Inr w'
            \<and> map_of (tasks (store w')) (lecture_id lecture) = Some (freshTask lecture)
            \<and> map fst (tasks (store w')) = map fst (tasks (store w))
            \<and> idb_get lectureId (lecture_id lecture) (downloads (db w')) = Some (freshTask lecture)"
    by blast
next
  assume "status t \<noteq> Completed \<and> status t \<noteq> Downloading
        \<and> \<not> checkStorageAvailability est (fileSize lecture) (db w)"
  with assms show "queueDownload est lecture w
          = Inl (Error ''Insufficient storage space. Please free up some space.'')"
    by (simp add: queueDownload_def Let_def)
qed

theorem queueDownload_existing_task_witness:
  "map_of (tasks (store sampleWorld)) (lecture_id (sampleLecture ''B'' 100)) = Some (sampleTask ''B'' Pending)
   \<and> checkStorageAvailability (sampleEstimate 100 40) (fileSize (sampleLecture ''B'' 100)) (db sampleWorld)
   \<and> (\<exists>w'. queueDownload (sampleEstimate 100 40) (sampleLecture ''B'' 100) sampleWorld = Inr w'
          \<and> map_of (tasks (store w')) ''B'' = Some (freshTask (sampleLecture ''B'' 100)))"
proof -
  have h: "map_of (tasks (store sampleWorld)) (lecture_id (sampleLecture ''B'' 100)) = Some (sampleTask ''B'' Pending)"
    by (simp add: sampleWorld_tasks sampleLecture_def)
  have c: "checkStorageAvailability (sampleEstimate 100 40) (fileSize (sampleLecture ''B'' 100)) (db sampleWorld)"
    by (simp add: checkStorageAvailability_def available_getStorageStats sampleEstimate_def
        or_zero_def sampleLecture_def STORAGE_BUFFER_MB_def)
  have s: "status (sampleTask ''B'' Pending) \<noteq> Completed \<and> status (sampleTask ''B'' Pending) \<noteq> Downloading"
    by (simp add: sampleTask_def)
  from queueDownload_existing_task[OF h, of "sampleEstimate 100 40"] c s
  have "\<exists>w'. queueDownload (sampleEstimate 100 40) (sampleLecture ''B'' 100) sampleWorld = Inr w'
          \<and> map_of (tasks (store w')) (lecture_id (sampleLecture ''B'' 100)) = Some (freshTask (sampleLecture ''B'' 100))"
    by blast
  with h c show ?thesis by (simp add: sampleLecture_def)
qed

text \<open>
  With 10 MB available the call for lecture B, whose task is pending with progress 40,
  raises, and the task stays as it is.
\<close>

theorem queueDownload_keeps_stale_task_when_storage_low:
  "map_of (tasks (store sampleWorld)) ''B'' = Some (sampleTask ''B'' Pending)
   \<and> progress (sampleTask ''B'' Pending) = 40
   \<and> queueDownload (sampleEstimate 100 90) (sampleLecture ''B'' 100) sampleWorld
       = Inl (Error ''Insufficient storage space. Please free up some space.'')
   \<and> step (QueueDownload (sampleEstimate 100 90) (sampleLecture ''B'' 100)) sampleWorld = sampleWorld"
proof -
  have c: "\<not> checkStorageAvailability (sampleEstimate 100 90) 100 (db sampleWorld)"
    by (simp add: checkStorageAvailability_def available_getStorageStats sampleEstimate_def
        or_zero_def STORAGE_BUFFER_MB_def)
  have q: "queueDownload (sampleEstimate 100 90) (sampleLecture ''B'' 100) sampleWorld
       = Inl (Error ''Insufficient storage space. Please free up some space.'')"
    using c by (simp add: queueDownload_def Let_def sampleWorld_tasks sampleLecture_def sampleTask_def)
  show ?thesis using q by (simp add: sampleWorld_tasks sampleTask_def)
qed

section \<open>The queue\<close>

text \<open>
  Claim C2. The number of tasks with status \<open>downloading\<close> is meant never to exceed
  \<open>MAX_CONCURRENT_DOWNLOADS\<close> = 2. \<open>startDownload\<close> marks its task and takes its slot only
  after \<open>await getLecture\<close>, and does so whatever the status of the task has become, so
  the cap does not hold: the run \<open>overCapTrace\<close> ends with three tasks downloading and
  three entries in \<open>activeDownloads\<close>.
\<close>

theorem concurrency_cap_exceeded:
  "reachable (run overCapTrace (init_world sampleDB))
   \<and> downloadingCount (run overCapTrace (init_world sampleDB)) = 3
   \<and> activeDownloads (store (run overCapTrace (init_world sampleDB))) = [''A'', ''B'', ''C'']
   \<and> \<not> int (downloadingCount (run overCapTrace (init_world sampleDB))) \<le> MAX_CONCURRENT_DOWNLOADS"
proof -
  have r: "reachable (run overCapTrace (init_world sampleDB))"
    by (rule reachable_run) (rule reachable_init)
  have c: "downloadingCount (run overCapTrace (init_world sampleDB)) = 3"
    by code_simp
  have a: "activeDownloads (store (run overCapTrace (init_world sampleDB))) = [''A'', ''B'', ''C'']"
    by code_simp
  show ?thesis using r c a by (simp add: MAX_CONCURRENT_DOWNLOADS_def)
qed

text \<open>
  Claim C4. A second call of \<open>processQueue\<close>, with the store and the database exactly
  as the first call left them, is not without effect: the tasks that the first call
  started are still pending, and the second call starts them again. On \<open>sampleWorld\<close>
  two calls make four calls of \<open>startDownload\<close>, two for A and two for B; when the two
  calls for A have got their lecture, both are fetching A.
\<close>

theorem processQueue_twice_starts_duplicates:
  "store (processQueue sampleWorld) = store sampleWorld
   \<and> db (processQueue sampleWorld) = db sampleWorld
   \<and> map snd (running (processQueue sampleWorld)) = [AwaitLecture ''A'', AwaitLecture ''B'']
   \<and> map snd (running (processQueue (processQueue sampleWorld)))
       = [AwaitLecture ''A'', AwaitLecture ''B'', AwaitLecture ''A'', AwaitLecture ''B'']
   \<and> map snd (running (run [LectureLoaded 0 5, LectureLoaded 2 6] (processQueue (processQueue sampleWorld))))
       = [AwaitResponse ''A'' (sampleLecture ''A'' 100), AwaitLecture ''B'',
          AwaitResponse ''A'' (sampleLecture ''A'' 100), AwaitLecture ''B'']"
proof -
  have 1: "map snd (running (processQueue sampleWorld)) = [AwaitLecture ''A'', AwaitLecture ''B'']"
    by code_simp
  have 2: "map snd (running (processQueue (processQueue sampleWorld)))
       = [AwaitLecture ''A'', AwaitLecture ''B'', AwaitLecture ''A'', AwaitLecture ''B'']"
    by code_simp
  have 3: "map snd (running (run [LectureLoaded 0 5, LectureLoaded 2 6] (processQueue (processQueue sampleWorld))))
       = [AwaitResponse ''A'' (sampleLecture ''A'' 100), AwaitLecture ''B'',
          AwaitResponse ''A'' (sampleLecture ''A'' 100), AwaitLecture ''B'']"
    by code_simp
  show ?thesis using 1 2 3 by (simp add: store_processQueue db_processQueue)
qed

section \<open>Cancellation of a transfer\<close>

text \<open>
  Claim C3, amended. When a call of \<open>startDownload\<close> whose controller has been aborted
  observes the abort while it waits for the server or reads the body, the task of its
  lecture gets status \<open>paused\<close> and the error text \<open>Download cancelled\<close>; nothing is
  written to the audio cache; the lecture leaves \<open>activeDownloads\<close>, and \<open>processQueue\<close>
  runs: if the queue is not paused and fewer than two downloads remain active, a call of
  \<open>startDownload\<close> is made for the first pending task.
\<close>

theorem abort_observed_pauses_task:
  assumes "map_of (running w) c = Some (AwaitResponse lid lecture)
         \<or> map_of (running w) c = Some (Reading lid lecture tot chunks loaded)"
    and "c \<in> set (aborted w)"
    and "map_of (tasks (store w)) lid = Some t"
  shows "map_of (tasks (store (step (AbortObserved c) w))) lid
           = Some (t\<lparr>status := Paused, error := Some ''Download cancelled''\<rparr>)
    \<and> audioCache (db (step (AbortObserved c) w)) = audioCache (db w)
    \<and> activeDownloads (store (step (AbortObserved c) w)) = set_delete lid (activeDownloads (store w))
    \<and> lid \<notin> set (activeDownloads (store (step (AbortObserved c) w)))
    \<and> (\<forall>p ps. \<not> isPaused (store w)
          \<and> int (length (set_delete lid (activeDownloads (store w)))) < MAX_CONCURRENT_DOWNLOADS
          \<and> filter (\<lambda>t. status t = Pending) (map snd (tasks (store (step (AbortObserved c) w)))) = p # ps
        \<longrightarrow> (calls w, AwaitLecture (lectureId p)) \<in> set (running (step (AbortObserved c) w)))"
proof -
  let ?t' = "t\<lparr>status := Paused, error := Some ''Download cancelled''\<rparr>"
  let ?w2 = "catchBlock lid AbortError (co_end c w)"
  let ?w3 = "?w2\<lparr>abortControllers := AList.delete lid (abortControllers ?w2),
          store := (store ?w2)\<lparr>activeDownloads := set_delete lid (activeDownloads (store ?w2))\<rparr>\<rparr>"
  have s: "step (AbortObserved c) w = processQueue ?w3"
    using abort_step[OF assms(1,2)] by (simp add: finallyBlock_def)
  have w2: "?w2 = w\<lparr>running := AList.delete c (running w),
          store := (store w)\<lparr>tasks := AList.update lid ?t' (tasks (store w))\<rparr>,
          db := saveDownloadTask ?t' (db w)\<rparr>"
    by (rule catchBlock_abort_present[OF assms(3)])
  have st: "store (step (AbortObserved c) w) = store ?w3"
    by (simp only: s store_processQueue)
  have tk: "tasks (store ?w3) = AList.update lid ?t' (tasks (store w))"
    by (simp add: w2)
  have ac: "activeDownloads (store ?w3) = set_delete lid (activeDownloads (store w))"
    by (simp add: w2)
  have pa: "isPaused (store ?w3) = isPaused (store w)"
    by (simp add: w2)
  have ca: "calls ?w3 = calls w"
    by (simp add: w2)
  have 1: "map_of (tasks (store (step (AbortObserved c) w))) lid = Some ?t'"
    by (simp only: st tk update_conv') simp
  have 2: "audioCache (db (step (AbortObserved c) w)) = audioCache (db w)"
    unfolding s db_processQueue by (simp add: w2 saveDownloadTask_def)
  have 3: "activeDownloads (store (step (AbortObserved c) w)) = set_delete lid (activeDownloads (store w))"
    by (simp only: st ac)
  have 4: "lid \<notin> set (activeDownloads (store (step (AbortObserved c) w)))"
    by (simp only: 3 set_delete_absent not_False_eq_True)
  have 5: "\<forall>p ps. \<not> isPaused (store w)
          \<and> int (length (set_delete lid (activeDownloads (store w)))) < MAX_CONCURRENT_DOWNLOADS
          \<and> filter (\<lambda>t. status t = Pending) (map snd (tasks (store (step (AbortObserved c) w)))) = p # ps
        \<longrightarrow> (calls w, AwaitLecture (lectureId p)) \<in> set (running (step (AbortObserved c) w))"
  proof (intro allI impI, elim conjE)
    fix p ps
    assume a: "\<not> isPaused (store w)"
      and b: "int (length (set_delete lid (activeDownloads (store w)))) < MAX_CONCURRENT_DOWNLOADS"
      and f: "filter (\<lambda>t. status t = Pending) (map snd (tasks (store (step (AbortObserved c) w)))) = p # ps"
    have a': "\<not> isPaused (store ?w3)" unfolding pa by (rule a)
    have b': "int (length (activeDownloads (store ?w3))) < MAX_CONCURRENT_DOWNLOADS"
      unfolding ac by (rule b)
    have f': "filter (\<lambda>t. status t = Pending) (map snd (tasks (store ?w3))) = p # ps"
      using f unfolding st .
    from processQueue_promotes_first_pending[OF a' b' f']
    show "(calls w, AwaitLecture (lectureId p)) \<in> set (running (step (AbortObserved c) w))"
      by (simp only: s ca)
  qed
  from 1 2 3 4 5 show ?thesis by blast
qed

theorem abort_observed_pauses_task_witness:
  "map_of (running pausedWorld) 0 = Some (AwaitResponse ''A'' (sampleLecture ''A'' 100))
   \<and> 0 \<in> set (aborted pausedWorld)
   \<and> map_option error (map_of (tasks (store pausedWorld)) ''A'') = Some None
   \<and> map_option error (map_of (tasks (store (step (AbortObserved 0) pausedWorld))) ''A'')
       = Some (Some ''Download cancelled'')
   \<and> map_option status (map_of (tasks (store (step (AbortObserved 0) pausedWorld))) ''A'') = Some Paused
   \<and> activeDownloads (store (step (AbortObserved 0) pausedWorld)) = [''B'']
   \<and> (2, AwaitLecture ''C'') \<in> set (running (step (AbortObserved 0) pausedWorld))"
proof -
  let ?t = "\<lparr>lectureId = ''A'', status = Paused, progress = 0, bytesDownloaded = 40,
          totalBytes = 100, startedAt = Some 5, completedAt = None, error = None\<rparr>"
  have h1: "map_of (running pausedWorld) 0 = Some (AwaitResponse ''A'' (sampleLecture ''A'' 100))"
    by code_simp
  have h2: "0 \<in> set (aborted pausedWorld)"
    by code_simp
  have h3: "map_of (tasks (store pausedWorld)) ''A'' = Some ?t"
    by code_simp
  have a: "\<not> isPaused (store pausedWorld)" by code_simp
  have b: "int (length (set_delete ''A'' (activeDownloads (store pausedWorld)))) < MAX_CONCURRENT_DOWNLOADS"
    by code_simp
  have c: "filter (\<lambda>t. status t = Pending) (map snd (tasks (store (step (AbortObserved 0) pausedWorld))))
            = [sampleTask ''C'' Pending]"
    by code_simp
  have n: "calls pausedWorld = 2" by code_simp
  have d: "set_delete ''A'' (activeDownloads (store pausedWorld)) = [''B'']" by code_simp
  from abort_observed_pauses_task[OF disjI1[OF h1] h2 h3] a b c n d
  have "map_of (tasks (store (step (AbortObserved 0) pausedWorld))) ''A''
           = Some (?t\<lparr>status := Paused, error := Some ''Download cancelled''\<rparr>)
      \<and> activeDownloads (store (step (AbortObserved 0) pausedWorld)) = [''B'']
      \<and> (2, AwaitLecture (lectureId (sampleTask ''C'' Pending)))
           \<in> set (running (step (AbortObserved 0) pausedWorld))"
    by metis
  then show ?thesis using h1 h2 h3 by (simp add: sampleTask_def)
qed

text \<open>
  On the run \<open>pauseTrace\<close>, once the abort of A is observed, the task of A is paused and
  carries the error text: it is not without a recorded error.
\<close>

theorem abort_records_error_message:
  "map_option status (map_of (tasks (store (run (pauseTrace @ [AbortObserved 0]) (init_world sampleDB)))) ''A'')
     = Some Paused
   \<and> map_option error (map_of (tasks (store (run (pauseTrace @ [AbortObserved 0]) (init_world sampleDB)))) ''A'')
     = Some (Some ''Download cancelled'')
   \<and> map_option error (map_of (tasks (store (run (pauseTrace @ [AbortObserved 0]) (init_world sampleDB)))) ''A'')
     \<noteq> Some None"
proof -
  have 1: "map_option status (map_of (tasks (store (run (pauseTrace @ [AbortObserved 0]) (init_world sampleDB)))) ''A'')
     = Some Paused"
    by code_simp
  have 2: "map_option error (map_of (tasks (store (run (pauseTrace @ [AbortObserved 0]) (init_world sampleDB)))) ''A'')
     = Some (Some ''Download cancelled'')"
    by code_simp
  have 3: "map_option error (map_of (tasks (store (run (pauseTrace @ [AbortObserved 0]) (init_world sampleDB)))) ''A'')
     \<noteq> Some None"
    unfolding 2 by simp
  from 1 2 3 show ?thesis by blast
qed

section \<open>Task invariants\<close>

text \<open>
  Claim C7, amended. In every reachable state the task map holds at most one task per
  lecture id, each under its own id. When the write of \<open>cacheAudio\<close> completes, the audio
  cache holds the blob under the lecture id with its length as size; when the write of
  \<open>saveLecture\<close> then completes, the task is marked completed with progress 100 and
  \<open>bytesDownloaded\<close> the length of that blob, and \<open>totalBytes\<close> is left as it was.
\<close>

theorem one_task_per_lecture_and_completion:
  "(reachable w \<longrightarrow>
        distinct (map fst (tasks (store w)))
      \<and> list_all (\<lambda>(k, t). lectureId t = k) (tasks (store w))
      \<and> distinct (map (\<lambda>(k, t). lectureId t) (tasks (store w))))
   \<and> (map_of (running w) c = Some (AwaitCacheAudio lid lecture b cachedNow) \<longrightarrow>
        idb_get ca_lectureId lid (audioCache (db (step (CacheAudioDone c now) w)))
          = Some \<lparr>ca_lectureId = lid, blob = b, ca_size = length b, cachedAt = cachedNow,
                  lastAccessed = cachedNow\<rparr>
      \<and> map_of (running (step (CacheAudioDone c now) w)) c
          = Some (AwaitSaveLecture lid (lecture\<lparr>isDownloaded := Some True, downloadedAt := Some now\<rparr>) b))
   \<and> (map_of (running w) c = Some (AwaitSaveLecture lid updatedLecture b)
        \<and> map_of (tasks (store w)) lid = Some t \<longrightarrow>
        map_of (tasks (store (step (SaveLectureDone c now) w))) lid
          = Some (t\<lparr>status := Completed, progress := 100, bytesDownloaded := int (length b),
                    completedAt := Some now\<rparr>))"
proof (intro conjI impI)
  assume r: "reachable w"
  then have i: "tasksInv w" by (rule tasksInv_reachable)
  then show d: "distinct (map fst (tasks (store w)))"
    and l: "list_all (\<lambda>(k, t). lectureId t = k) (tasks (store w))"
    by (simp_all add: tasksInv_def)
  have eq: "map (\<lambda>(k, t). lectureId t) (tasks (store w)) = map fst (tasks (store w))"
    using l by (auto simp: list_all_iff)
  show "distinct (map (\<lambda>(k, t). lectureId t) (tasks (store w)))"
    unfolding eq by (rule d)
next
  assume a: "map_of (running w) c = Some (AwaitCacheAudio lid lecture b cachedNow)"
  then have s: "step (CacheAudioDone c now) w = afterCacheAudio c now lid lecture b cachedNow w"
    by simp
  show "idb_get ca_lectureId lid (audioCache (db (step (CacheAudioDone c now) w)))
          = Some \<lparr>ca_lectureId = lid, blob = b, ca_size = length b, cachedAt = cachedNow,
                  lastAccessed = cachedNow\<rparr>"
    unfolding s by (simp add: afterCacheAudio_def co_set_def cacheAudio_def idb_get_put)
  show "map_of (running (step (CacheAudioDone c now) w)) c
          = Some (AwaitSaveLecture lid (lecture\<lparr>isDownloaded := Some True, downloadedAt := Some now\<rparr>) b)"
    unfolding s by (simp add: afterCacheAudio_def co_set_def update_conv')
next
  assume a: "map_of (running w) c = Some (AwaitSaveLecture lid updatedLecture b)
        \<and> map_of (tasks (store w)) lid = Some t"
  then have s: "step (SaveLectureDone c now) w = afterSaveLecture c now lid updatedLecture b w"
    by simp
  have "store (step (SaveLectureDone c now) w)
      = (store (updateTask lid (\<lambda>t. t\<lparr>status := Completed, progress := 100,
                        bytesDownloaded := int (length b), completedAt := Some now\<rparr>)
                 (w\<lparr>db := saveLecture updatedLecture (db w)\<rparr>)))
          \<lparr>activeDownloads := set_delete lid (activeDownloads (store w))\<rparr>"
    unfolding s using a
    by (simp add: afterSaveLecture_def Let_def finallyBlock_def store_processQueue co_end_def
        updateTask_def)
  then show "map_of (tasks (store (step (SaveLectureDone c now) w))) lid
          = Some (t\<lparr>status := Completed, progress := 100, bytesDownloaded := int (length b),
                    completedAt := Some now\<rparr>)"
    using a by (simp add: updateTask_def Let_def update_conv')
qed

theorem one_task_per_lecture_and_completion_witness:
  "reachable (run sizeTrace (init_world sampleDB))
   \<and> map fst (tasks (store (run sizeTrace (init_world sampleDB)))) = [''A'', ''B'', ''C'']
   \<and> distinct (map fst (tasks (store (run sizeTrace (init_world sampleDB)))))
   \<and> map_of (running (run fetchedTrace (init_world sampleDB))) 0
       = Some (AwaitCacheAudio ''A'' (sampleLecture ''A'' 100) (replicate 120 0) 6)
   \<and> idb_get ca_lectureId ''A''
        (audioCache (db (step (CacheAudioDone 0 7) (run fetchedTrace (init_world sampleDB)))))
       = Some \<lparr>ca_lectureId = ''A'', blob = replicate 120 0, ca_size = 120, cachedAt = 6, lastAccessed = 6\<rparr>"
proof -
  have r: "reachable (run sizeTrace (init_world sampleDB))"
    by (rule reachable_run) (rule reachable_init)
  have k: "map fst (tasks (store (run sizeTrace (init_world sampleDB)))) = [''A'', ''B'', ''C'']"
    by code_simp
  have h: "map_of (running (run fetchedTrace (init_world sampleDB))) 0
       = Some (AwaitCacheAudio ''A'' (sampleLecture ''A'' 100) (replicate 120 0) 6)"
    by code_simp
  from one_task_per_lecture_and_completion[of "run sizeTrace (init_world sampleDB)"] r
  have d: "distinct (map fst (tasks (store (run sizeTrace (init_world sampleDB)))))"
    by blast
  from one_task_per_lecture_and_completion[where w = "run fetchedTrace (init_world sampleDB)"
      and c = 0 and lid = "''A''" and lecture = "sampleLecture ''A'' 100"
      and b = "replicate 120 0" and cachedNow = 6 and now = 7] h
  have c: "idb_get ca_lectureId ''A''
        (audioCache (db (step (CacheAudioDone 0 7) (run fetchedTrace (init_world sampleDB)))))
       = Some \<lparr>ca_lectureId = ''A'', blob = replicate 120 0, ca_size = length (replicate 120 (0::nat)),
               cachedAt = 6, lastAccessed = 6\<rparr>"
    by blast
  from r k d h c show ?thesis by simp
qed

text \<open>
  \<open>bytesDownloaded\<close> and \<open>totalBytes\<close> are not reconciled: after \<open>sizeTrace\<close> the task of
  A is completed with 120 bytes downloaded of 100 in total. And a completed task need not
  have a cached blob: after \<open>evictedTrace\<close> the task of A is completed and A is not
  cached.
\<close>

theorem completed_task_sizes_disagree:
  "reachable (run sizeTrace (init_world sampleDB))
   \<and> map_option status (map_of (tasks (store (run sizeTrace (init_world sampleDB)))) ''A'') = Some Completed
   \<and> map_option bytesDownloaded (map_of (tasks (store (run sizeTrace (init_world sampleDB)))) ''A'') = Some 120
   \<and> map_option totalBytes (map_of (tasks (store (run sizeTrace (init_world sampleDB)))) ''A'') = Some 100
   \<and> reachable (run evictedTrace (init_world sampleDB))
   \<and> map_option status (map_of (tasks (store (run evictedTrace (init_world sampleDB)))) ''A'') = Some Completed
   \<and> \<not> isAudioCached ''A'' (db (run evictedTrace (init_world sampleDB)))"
proof -
  have r: "reachable (run sizeTrace (init_world sampleDB))" "reachable (run evictedTrace (init_world sampleDB))"
    by (rule reachable_run, rule reachable_init)+
  have 1: "map_option status (map_of (tasks (store (run sizeTrace (init_world sampleDB)))) ''A'') = Some Completed"
    by code_simp
  have 2: "map_option bytesDownloaded (map_of (tasks (store (run sizeTrace (init_world sampleDB)))) ''A'') = Some 120"
    by code_simp
  have 3: "map_option totalBytes (map_of (tasks (store (run sizeTrace (init_world sampleDB)))) ''A'') = Some 100"
    by code_simp
  have 4: "map_option status (map_of (tasks (store (run evictedTrace (init_world sampleDB)))) ''A'') = Some Completed"
    by code_simp
  have 5: "\<not> isAudioCached ''A'' (db (run evictedTrace (init_world sampleDB)))"
    by code_simp
  from r 1 2 3 4 5 show ?thesis by blast
qed

end
